theory Spec2Isabelle
  imports Main "HOL-Library.Char_ord" "HOL-Library.List_Lexorder" "HOL-Library.Product_Lexorder"
    "HOL-Library.Multiset"
begin

section \<open>The abstract syntax tree\<close>

text \<open>
  Modelled from the spec: the AST classes (AstArgument, AstAtom, AstLiteral, AstClause,
  AstRelation, AstProgram, AstIO, AstQualifiedName) are declared in headers that are not
  part of the sources at hand. The variants follow section 3 of the specification; the
  child order of every node (what \<open>apply\<close> and \<open>visitDepthFirst\<close> traverse) is the order
  of the constructor arguments.
\<close>

type_synonym AstQualifiedName = "string list"

datatype BinaryConstraintOp =
  EQ | NE | LT | LE | GT | GE | FEQ | FNE | FLT | FLE | FGT | FGE

datatype FunctorOp = MOD | FDIV | DIV | UMOD | OtherFunctorOp string

datatype AggregateOp = AggrCount | AggrSum | AggrMin | AggrMax

datatype AstArgument =
    AstVariable string
  | AstUnnamedVariable
  | AstNumberConstant int
  | AstStringConstant string
  | AstCounter
  | AstIntrinsicFunctor FunctorOp "AstArgument list"
  | AstUserDefinedFunctor string "AstArgument list"
  | AstTypeCast AstArgument AstQualifiedName
  | AstRecordInit AstQualifiedName "AstArgument list"
  | AstAggregator AggregateOp "AstArgument option" "AstLiteral list"
and AstAtom =
    AstAtom AstQualifiedName "AstArgument list"
and AstLiteral =
    Atom AstAtom
  | AstNegation AstAtom
  | AstBinaryConstraint BinaryConstraintOp AstArgument AstArgument
  | AstBooleanConstraint bool

fun getQualifiedName :: "AstAtom \<Rightarrow> AstQualifiedName" where
  "getQualifiedName (AstAtom n as) = n"

fun getArguments :: "AstAtom \<Rightarrow> AstArgument list" where
  "getArguments (AstAtom n as) = as"

fun setQualifiedName :: "AstQualifiedName \<Rightarrow> AstAtom \<Rightarrow> AstAtom" where
  "setQualifiedName n' (AstAtom n as) = AstAtom n' as"

record AstClause =
  getHead :: AstAtom
  getBodyLiterals :: "AstLiteral list"
  hasExecutionPlan :: bool

datatype RelationRepresentation = DEFAULT | EQREL | BTREE | BRIE

record AstRelation =
  relName :: AstQualifiedName
  getAttributes :: "(string \<times> AstQualifiedName) list"
  getRepresentation :: RelationRepresentation

datatype AstIoType = ioInput | ioOutput | ioPrintsize

record AstIO =
  ioType :: AstIoType
  ioName :: AstQualifiedName
  ioDirectives :: "(string \<times> string) list"

record AstProgram =
  getRelations :: "AstRelation list"
  getClauses :: "AstClause list"
  getIOs :: "AstIO list"

section \<open>Semantic checker: facts\<close>

text \<open>
  A diagnostic carries its message and the node it is attached to (the node carries its
  source location). \<open>assert(false)\<close> aborts the checker; it is the error value of the
  model.
\<close>

datatype Abort = UnknownCase | AssertionFailed | NullDereference | OutOfRange | Fatal

type_synonym Diagnostic = "string \<times> AstArgument"

type_synonym ErrorReport = "Diagnostic list"

definition addError :: "ErrorReport \<Rightarrow> string \<Rightarrow> AstArgument \<Rightarrow> ErrorReport" where
  "addError report msg node = report @ [(msg, node)]"

text \<open>
  \<open>isConstantArithExpr\<close>: a number constant, or a numerical intrinsic functor all of whose
  arguments are constant arithmetic expressions. Whether a functor is numerical is decided
  by \<open>AstIntrinsicFunctor::isNumerical\<close>, which is not part of the sources at hand and is
  taken as the parameter \<open>isNumerical\<close>.
\<close>

fun isConstantArithExpr :: "(FunctorOp \<Rightarrow> bool) \<Rightarrow> AstArgument \<Rightarrow> bool" where
  "isConstantArithExpr isNumerical (AstNumberConstant n) = True"
| "isConstantArithExpr isNumerical (AstIntrinsicFunctor f as) =
     (if \<not> isNumerical f then False
      else list_all (isConstantArithExpr isNumerical) as)"
| "isConstantArithExpr isNumerical _ = False"

fun checkConstant :: "(FunctorOp \<Rightarrow> bool) \<Rightarrow> ErrorReport \<Rightarrow> AstArgument \<Rightarrow> Abort + ErrorReport"
and checkConstants :: "(FunctorOp \<Rightarrow> bool) \<Rightarrow> ErrorReport \<Rightarrow> AstArgument list \<Rightarrow> Abort + ErrorReport"
where
  "checkConstant isNumerical report (AstVariable v) =
     Inr (addError report (''Variable '' @ v @ '' in fact'') (AstVariable v))"
| "checkConstant isNumerical report AstUnnamedVariable =
     Inr (addError report ''Underscore in fact'' AstUnnamedVariable)"
| "checkConstant isNumerical report (AstIntrinsicFunctor f as) =
     (if \<not> isConstantArithExpr isNumerical (AstIntrinsicFunctor f as)
      then Inr (addError report ''Function in fact'' (AstIntrinsicFunctor f as))
      else Inr report)"
| "checkConstant isNumerical report (AstUserDefinedFunctor f as) =
     Inr (addError report ''User-defined functor in fact'' (AstUserDefinedFunctor f as))"
| "checkConstant isNumerical report (AstTypeCast v t) = checkConstant isNumerical report v"
| "checkConstant isNumerical report AstCounter =
     Inr (addError report ''Counter in fact'' AstCounter)"
| "checkConstant isNumerical report (AstNumberConstant n) = Inr report"
| "checkConstant isNumerical report (AstStringConstant s) = Inr report"
| "checkConstant isNumerical report (AstRecordInit t as) = checkConstants isNumerical report as"
| "checkConstant isNumerical report (AstAggregator op t body) = Inl UnknownCase"
| "checkConstants isNumerical report [] = Inr report"
| "checkConstants isNumerical report (a # as) =
     (case checkConstant isNumerical report a of
        Inl e \<Rightarrow> Inl e
      | Inr report' \<Rightarrow> checkConstants isNumerical report' as)"

definition getRelation :: "AstProgram \<Rightarrow> AstQualifiedName \<Rightarrow> AstRelation option" where
  "getRelation program n = find (\<lambda>r. relName r = n) (getRelations program)"

text \<open>
  Modelled from the spec: \<open>AstClause::isFact\<close> is not part of the sources at hand; a fact
  is a clause with an empty body. A clause of the model always has a head, so the early
  return of \<open>checkFact\<close> on a missing head has no counterpart.
\<close>

definition isFact :: "AstClause \<Rightarrow> bool" where
  "isFact clause = (getBodyLiterals clause = [])"

text \<open>
  \<open>checkFact\<close>: the clause is asserted to be a fact; nothing is checked when the head relation is not declared (``checked by
  clause''); otherwise every head argument goes through \<open>checkConstant\<close>, in order.
\<close>

definition checkFact ::
  "(FunctorOp \<Rightarrow> bool) \<Rightarrow> ErrorReport \<Rightarrow> AstProgram \<Rightarrow> AstClause \<Rightarrow> Abort + ErrorReport" where
  "checkFact isNumerical report program cl =
     (if \<not> isFact cl then Inl AssertionFailed
      else case getRelation program (getQualifiedName (getHead cl)) of
        None \<Rightarrow> Inr report
      | Some rel \<Rightarrow> checkConstants isNumerical report (getArguments (getHead cl)))"

text \<open>
  The arguments on which \<open>checkConstant\<close> runs into its final \<open>else\<close> branch: an
  aggregator, reached through casts and record initialisers.
\<close>

fun reachesUnknownCase :: "AstArgument \<Rightarrow> bool" where
  "reachesUnknownCase (AstAggregator op t body) = True"
| "reachesUnknownCase (AstTypeCast v t) = reachesUnknownCase v"
| "reachesUnknownCase (AstRecordInit t as) = (\<exists>a \<in> set as. reachesUnknownCase a)"
| "reachesUnknownCase _ = False"

definition factErrors :: "(FunctorOp \<Rightarrow> bool) \<Rightarrow> AstArgument \<Rightarrow> Diagnostic list" where
  "factErrors isNumerical a =
     (case checkConstant isNumerical [] a of Inl e \<Rightarrow> [] | Inr report \<Rightarrow> report)"

definition example_isNumerical :: "FunctorOp \<Rightarrow> bool" where
  "example_isNumerical f = (f \<noteq> OtherFunctorOp ''cat'')"

definition example_declaring :: "AstQualifiedName \<Rightarrow> AstProgram" where
  "example_declaring n =
     \<lparr>getRelations = [\<lparr>relName = n, getAttributes = [(''x'', [''number''])],
                        getRepresentation = DEFAULT\<rparr>],
      getClauses = [], getIOs = []\<rparr>"

definition example_fact :: "AstQualifiedName \<Rightarrow> AstArgument list \<Rightarrow> AstClause" where
  "example_fact n as =
     \<lparr>getHead = AstAtom n as, getBodyLiterals = [], hasExecutionPlan = False\<rparr>"

section \<open>Traversals\<close>

text \<open>
  \<open>visitDepthFirst\<close> restricted to one node kind, in pre-order: the names of the variables
  below a node, and whether an aggregator occurs below it.
\<close>

fun variablesOfArg :: "AstArgument \<Rightarrow> string list"
and variablesOfAtom :: "AstAtom \<Rightarrow> string list"
and variablesOfLit :: "AstLiteral \<Rightarrow> string list"
where
  "variablesOfArg (AstVariable v) = [v]"
| "variablesOfArg AstUnnamedVariable = []"
| "variablesOfArg (AstNumberConstant n) = []"
| "variablesOfArg (AstStringConstant s) = []"
| "variablesOfArg AstCounter = []"
| "variablesOfArg (AstIntrinsicFunctor f as) = concat (map variablesOfArg as)"
| "variablesOfArg (AstUserDefinedFunctor f as) = concat (map variablesOfArg as)"
| "variablesOfArg (AstTypeCast v t) = variablesOfArg v"
| "variablesOfArg (AstRecordInit t as) = concat (map variablesOfArg as)"
| "variablesOfArg (AstAggregator op None body) = concat (map variablesOfLit body)"
| "variablesOfArg (AstAggregator op (Some e) body) =
     variablesOfArg e @ concat (map variablesOfLit body)"
| "variablesOfAtom (AstAtom n as) = concat (map variablesOfArg as)"
| "variablesOfLit (Atom a) = variablesOfAtom a"
| "variablesOfLit (AstNegation a) = variablesOfAtom a"
| "variablesOfLit (AstBinaryConstraint op l r) = variablesOfArg l @ variablesOfArg r"
| "variablesOfLit (AstBooleanConstraint b) = []"

fun containsAggrArg :: "AstArgument \<Rightarrow> bool" where
  "containsAggrArg (AstAggregator op t body) = True"
| "containsAggrArg (AstIntrinsicFunctor f as) = (\<exists>a \<in> set as. containsAggrArg a)"
| "containsAggrArg (AstUserDefinedFunctor f as) = (\<exists>a \<in> set as. containsAggrArg a)"
| "containsAggrArg (AstTypeCast v t) = containsAggrArg v"
| "containsAggrArg (AstRecordInit t as) = (\<exists>a \<in> set as. containsAggrArg a)"
| "containsAggrArg _ = False"

fun isVariable :: "AstArgument \<Rightarrow> bool" where
  "isVariable (AstVariable v) = True"
| "isVariable _ = False"

fun asVariable :: "AstArgument \<Rightarrow> string option" where
  "asVariable (AstVariable v) = Some v"
| "asVariable _ = None"

fun isConstant :: "AstArgument \<Rightarrow> bool" where
  "isConstant (AstNumberConstant n) = True"
| "isConstant (AstStringConstant s) = True"
| "isConstant _ = False"

fun isRecordInit :: "AstArgument \<Rightarrow> bool" where
  "isRecordInit (AstRecordInit t as) = True"
| "isRecordInit _ = False"

definition andThen :: "Abort + 'a \<Rightarrow> ('a \<Rightarrow> Abort + 'b) \<Rightarrow> Abort + 'b" where
  "andThen m f = (case m of Inl e \<Rightarrow> Inl e | Inr x \<Rightarrow> f x)"

text \<open>
  Modelled from the spec: \<open>AstProgram::addRelation\<close>, \<open>addClause\<close> and \<open>removeClause\<close> are
  not part of the sources at hand. The program owns ordered sequences of relations and
  clauses; an added item goes to the end, and \<open>removeClause\<close> takes out the first clause
  equal to the given one.
\<close>

definition addRelation :: "AstRelation \<Rightarrow> AstProgram \<Rightarrow> AstProgram" where
  "addRelation r program = program\<lparr>getRelations := getRelations program @ [r]\<rparr>"

definition addClause :: "AstClause \<Rightarrow> AstProgram \<Rightarrow> AstProgram" where
  "addClause c program = program\<lparr>getClauses := getClauses program @ [c]\<rparr>"

definition removeClause :: "AstClause \<Rightarrow> AstProgram \<Rightarrow> AstProgram" where
  "removeClause c program = program\<lparr>getClauses := remove1 c (getClauses program)\<rparr>"

section \<open>Magic pass\<close>

text \<open>
  \<open>isAdorned\<close>: the last qualifier of the name starts with an opening brace. The
  assertions on the shape of the name abort the pass.
\<close>

definition isAdorned :: "AstQualifiedName \<Rightarrow> Abort + bool" where
  "isAdorned name =
     (if name = [] then Inl AssertionFailed
      else let finalQualifier = last name in
        if finalQualifier = [] then Inl AssertionFailed
        else if hd finalQualifier = CHR ''{'' then
          (if last finalQualifier \<noteq> CHR ''}'' then Inl AssertionFailed
           else if \<exists>c \<in> set (butlast (tl finalQualifier)). c \<noteq> CHR ''b'' \<and> c \<noteq> CHR ''f''
             then Inl AssertionFailed
           else Inr True)
        else Inr False)"

definition getAdornment :: "AstQualifiedName \<Rightarrow> Abort + string" where
  "getAdornment name =
     andThen (isAdorned name) (\<lambda>adorned.
       if \<not> adorned then Inl AssertionFailed
       else Inr (butlast (tl (last name))))"

text \<open>
  \<open>adornmentMarker[i]\<close> on a \<open>std::string\<close>: the character at a position below the
  length; the null character at the position equal to the length; beyond that the
  behaviour is undefined, which the model records as the abort \<open>OutOfRange\<close>. The Magic
  pass does not compare the length of the marker with the number of arguments or
  attributes before it reads.
\<close>

definition charAt :: "string \<Rightarrow> nat \<Rightarrow> Abort + char" where
  "charAt s i =
     (if i < length s then Inr (s ! i)
      else if i = length s then Inr (CHR 0x00)
      else Inl OutOfRange)"

text \<open>
  The loop \<open>for (i = 0; i < xs.size(); i++) if (adornmentMarker[i] == 'b') keep xs[i]\<close>,
  from position \<open>i\<close> on.
\<close>

fun boundPositionsFrom :: "nat \<Rightarrow> string \<Rightarrow> 'a list \<Rightarrow> Abort + 'a list" where
  "boundPositionsFrom i adornmentMarker [] = Inr []"
| "boundPositionsFrom i adornmentMarker (x # xs) =
     (case charAt adornmentMarker i of
        Inl e \<Rightarrow> Inl e
      | Inr c \<Rightarrow>
          (case boundPositionsFrom (Suc i) adornmentMarker xs of
             Inl e \<Rightarrow> Inl e
           | Inr kept \<Rightarrow> Inr (if c = CHR ''b'' then x # kept else kept)))"

definition boundPositions :: "string \<Rightarrow> 'a list \<Rightarrow> Abort + 'a list" where
  "boundPositions adornmentMarker xs = boundPositionsFrom 0 adornmentMarker xs"

text \<open>
  \<open>clausesToRemove\<close> and \<open>clausesToAdd\<close> are sets of owning pointers: every inserted
  clause is kept, since the pointers are distinct, and the set is ordered by address. The
  state holds the clauses as they are inserted; the order in which each set is iterated
  at the end of the pass is not determined by the program and is a parameter of the
  pass.
\<close>

record MagicState =
  magicPredicatesSeen :: "AstQualifiedName set"
  msProgram :: AstProgram
  clausesToRemove :: "AstClause list"
  clausesToAdd :: "AstClause list"

text \<open>
  \<open>createMagicAtom\<close>: the magic atom of an adorned atom; the first time a magic
  relation name is met, its relation is declared with the attributes, at the bound
  positions, of the relation that the program declares under the name of the atom. A
  missing relation is a null dereference.
\<close>

definition createMagicAtom :: "MagicState \<Rightarrow> AstAtom \<Rightarrow> Abort + (AstAtom \<times> MagicState)" where
  "createMagicAtom st atom =
     (let name = getQualifiedName atom;
          magicRelName = ''@magic'' # name;
          args = getArguments atom
      in andThen (getAdornment name) (\<lambda>adornmentMarker.
         andThen (boundPositions adornmentMarker args) (\<lambda>boundArgs.
           let magicAtom = AstAtom magicRelName boundArgs
           in if magicRelName \<notin> magicPredicatesSeen st then
                (case getRelation (msProgram st) name of
                   None \<Rightarrow> Inl NullDereference
                 | Some rel \<Rightarrow>
                     andThen (boundPositions adornmentMarker (getAttributes rel)) (\<lambda>boundAttributes.
                       let magicRelation =
                             \<lparr>relName = magicRelName,
                              getAttributes = boundAttributes,
                              getRepresentation = DEFAULT\<rparr>
                       in Inr (magicAtom,
                               st\<lparr>magicPredicatesSeen := insert magicRelName (magicPredicatesSeen st),
                                  msProgram := addRelation magicRelation (msProgram st)\<rparr>)))
              else Inr (magicAtom, st))))"

text \<open>
  One round of the loop over the equality constraints in \<open>createMagicClause\<close>: a
  constraint between a seen variable and a record makes every variable of the
  constraint seen. The flag is \<open>fixpointReached\<close>.
\<close>

definition seeAll :: "string list \<Rightarrow> string set \<times> bool \<Rightarrow> string set \<times> bool" where
  "seeAll subVars s =
     fold (\<lambda>v (seen, fixpointReached).
             if v \<notin> seen then (insert v seen, False) else (seen, fixpointReached)) subVars s"

fun bindRecordVariables :: "AstLiteral \<Rightarrow> string set \<times> bool \<Rightarrow> string set \<times> bool" where
  "bindRecordVariables (AstBinaryConstraint op lhs rhs) s =
     (let subVars = variablesOfLit (AstBinaryConstraint op lhs rhs);
          s1 = (if isRecordInit rhs then
                  (case asVariable lhs of
                     Some v \<Rightarrow> if v \<in> fst s then seeAll subVars s else s
                   | None \<Rightarrow> s)
                else s)
      in if isRecordInit lhs then
           (case asVariable rhs of
              Some v \<Rightarrow> if v \<in> fst s1 then seeAll subVars s1 else s1
            | None \<Rightarrow> s1)
         else s1)"
| "bindRecordVariables _ s = s"

definition fixpointRound :: "AstLiteral list \<Rightarrow> string set \<Rightarrow> string set \<times> bool" where
  "fixpointRound eqConstraints seenVariables =
     fold bindRecordVariables eqConstraints (seenVariables, True)"

function closeSeenVariables :: "AstLiteral list \<Rightarrow> string set \<Rightarrow> string set" where
  "closeSeenVariables eqConstraints seenVariables =
     (case fixpointRound eqConstraints seenVariables of
        (seenVariables', fixpointReached) \<Rightarrow>
          if fixpointReached then seenVariables'
          else closeSeenVariables eqConstraints seenVariables')"
  by pat_completeness auto
termination
proof -
  have seeAll: "seeAll vs (s, b) = (s \<union> set vs, b \<and> set vs \<subseteq> s)" for vs s b
    unfolding seeAll_def by (induction vs arbitrary: s b) auto
  have one: "\<exists>s'. bindRecordVariables lit (s, b) = (s', b \<and> s' = s) \<and> s \<subseteq> s' \<and>
                 s' \<subseteq> s \<union> set (variablesOfLit lit)" for lit s b
  proof (cases lit)
    case (AstBinaryConstraint op lhs rhs)
    show ?thesis
      unfolding AstBinaryConstraint bindRecordVariables.simps Let_def seeAll
      by (auto simp: seeAll split: option.splits)
  qed simp_all
  have many: "\<exists>s'. fold bindRecordVariables eqs (s, b) = (s', b \<and> s' = s) \<and> s \<subseteq> s' \<and>
                 s' \<subseteq> s \<union> (\<Union>l\<in>set eqs. set (variablesOfLit l))" for eqs s b
  proof (induction eqs arbitrary: s b)
    case Nil
    show ?case by simp
  next
    case (Cons lit eqs)
    from one [of lit s b] obtain s1 where
      s1: "bindRecordVariables lit (s, b) = (s1, b \<and> s1 = s)" "s \<subseteq> s1"
          "s1 \<subseteq> s \<union> set (variablesOfLit lit)" by blast
    from Cons [of s1 "b \<and> s1 = s"] obtain s2 where
      s2: "fold bindRecordVariables eqs (s1, b \<and> s1 = s) = (s2, (b \<and> s1 = s) \<and> s2 = s1)"
          "s1 \<subseteq> s2" "s2 \<subseteq> s1 \<union> (\<Union>l\<in>set eqs. set (variablesOfLit l))" by blast
    have "fold bindRecordVariables (lit # eqs) (s, b) = (s2, b \<and> s2 = s)"
      using s1 s2 by auto
    moreover have "s \<subseteq> s2" using s1 s2 by blast
    moreover have "s2 \<subseteq> s \<union> (\<Union>l\<in>set (lit # eqs). set (variablesOfLit l))"
      using s1 s2 by auto
    ultimately show ?case by blast
  qed
  have gen: "card (V - s') < card (V - seen)"
    if "seen \<subseteq> s'" "s' \<noteq> seen" "s' \<subseteq> seen \<union> V" "finite V"
    for V s' seen :: "string set"
  proof -
    from that have "V - s' \<subset> V - seen" by blast
    moreover have "finite (V - seen)" using that by simp
    ultimately show ?thesis by (rule psubset_card_mono [rotated])
  qed
  have dec: "card ((\<Union>l\<in>set eqs. set (variablesOfLit l)) - seen')
               < card ((\<Union>l\<in>set eqs. set (variablesOfLit l)) - seen)"
    if "(seen', False) = fixpointRound eqs seen" for eqs seen seen'
  proof -
    from many [of eqs seen True] obtain s' where
      s': "fold bindRecordVariables eqs (seen, True) = (s', True \<and> s' = seen)"
          "seen \<subseteq> s'" "s' \<subseteq> seen \<union> (\<Union>l\<in>set eqs. set (variablesOfLit l))" by blast
    from s'(1) have "fixpointRound eqs seen = (s', s' = seen)"
      by (simp add: fixpointRound_def)
    with that have "(seen', False) = (s', s' = seen)" by (rule trans)
    then have eq: "seen' = s'" and ne: "s' \<noteq> seen" by blast+
    have fin: "finite (\<Union>l\<in>set eqs. set (variablesOfLit l))" by simp
    show ?thesis unfolding eq by (rule gen [OF s'(2) ne s'(3) fin])
  qed
  show ?thesis
    apply (relation "measure (\<lambda>(eqs, seen). card ((\<Union>l\<in>set eqs. set (variablesOfLit l)) - seen))")
     apply simp
    apply (simp only: in_measure prod.case)
    apply (rule dec)
    apply assumption
    done
qed

text \<open>
  \<open>createMagicClause\<close>: the magic rule of an adorned body atom. Its body is the atoms
  to the left, followed by the equality constraints all of whose variables are seen
  once the seen variables are closed under the record constraints.
\<close>

definition createMagicClause ::
  "MagicState \<Rightarrow> AstAtom \<Rightarrow> AstAtom list \<Rightarrow> AstLiteral list \<Rightarrow> Abort + (AstClause \<times> MagicState)" where
  "createMagicClause st atom constrainingAtoms eqConstraints =
     andThen (createMagicAtom st atom) (\<lambda>(magicHead, st').
       let seenVariables = closeSeenVariables eqConstraints
                             (set (concat (map variablesOfAtom constrainingAtoms)) \<union>
                              set (variablesOfAtom magicHead));
           addedConstraints =
             filter (\<lambda>eqConstraint. \<forall>v \<in> set (variablesOfLit eqConstraint). v \<in> seenVariables)
                    eqConstraints
       in Inr (\<lparr>getHead = magicHead,
                 getBodyLiterals = map Atom constrainingAtoms @ addedConstraints,
                 hasExecutionPlan = False\<rparr>, st'))"

text \<open>
  \<open>getEqualityConstraints\<close>: the equalities of the body whose left side is a variable or
  whose right side is a constant, and that contain no aggregator.
\<close>

fun isBindingEquality :: "AstLiteral \<Rightarrow> bool" where
  "isBindingEquality (AstBinaryConstraint op lhs rhs) =
     (op = EQ \<and> (isVariable lhs \<or> isConstant rhs) \<and>
      \<not> (containsAggrArg lhs \<or> containsAggrArg rhs))"
| "isBindingEquality _ = False"

definition getEqualityConstraints :: "AstClause \<Rightarrow> AstLiteral list" where
  "getEqualityConstraints clause = filter isBindingEquality (getBodyLiterals clause)"

text \<open>
  The loop over the body literals in step (2) of the pass: an unadorned atom only
  joins the atoms to the left; an adorned atom gets its magic rule first.
\<close>

fun addMagicRules ::
  "AstLiteral list \<Rightarrow> AstLiteral list \<Rightarrow> AstAtom list \<Rightarrow> MagicState \<Rightarrow> Abort + MagicState" where
  "addMagicRules eqConstraints [] atomsToTheLeft st = Inr st"
| "addMagicRules eqConstraints (Atom atom # lits) atomsToTheLeft st =
     andThen (isAdorned (getQualifiedName atom)) (\<lambda>adorned.
       if \<not> adorned then addMagicRules eqConstraints lits (atomsToTheLeft @ [atom]) st
       else andThen (createMagicClause st atom atomsToTheLeft eqConstraints) (\<lambda>(magicClause, st').
              addMagicRules eqConstraints lits (atomsToTheLeft @ [atom])
                (st'\<lparr>clausesToAdd := clausesToAdd st' @ [magicClause]\<rparr>)))"
| "addMagicRules eqConstraints (lit # lits) atomsToTheLeft st =
     addMagicRules eqConstraints lits atomsToTheLeft st"

text \<open>
  The body of the loop over the clauses of the program: (1) the refined clause, (2) the
  magic rules.
\<close>

definition magicClauseStep :: "AstClause \<Rightarrow> MagicState \<Rightarrow> Abort + MagicState" where
  "magicClauseStep clause st0 =
     (let st = st0\<lparr>clausesToRemove := clausesToRemove st0 @ [clause]\<rparr>;
          head = getHead clause;
          relName = getQualifiedName head
      in andThen (isAdorned relName) (\<lambda>adorned.
           andThen
             (if \<not> adorned then Inr (st\<lparr>clausesToAdd := clausesToAdd st @ [clause]\<rparr>)
              else andThen (createMagicAtom st head) (\<lambda>(magicAtom, st1).
                     let refinedClause =
                           \<lparr>getHead = head,
                            getBodyLiterals = Atom magicAtom # getBodyLiterals clause,
                            hasExecutionPlan = False\<rparr>
                     in Inr (st1\<lparr>clausesToAdd := clausesToAdd st1 @ [refinedClause]\<rparr>)))
             (\<lambda>st2.
                andThen
                  (if adorned then
                     andThen (createMagicAtom st2 head) (\<lambda>(magicAtom, st3). Inr ([magicAtom], st3))
                   else Inr ([], st2))
                  (\<lambda>(atomsToTheLeft, st4).
                     addMagicRules (getEqualityConstraints clause) (getBodyLiterals clause)
                       atomsToTheLeft st4))))"

fun magicClauseLoop :: "AstClause list \<Rightarrow> MagicState \<Rightarrow> Abort + MagicState" where
  "magicClauseLoop [] st = Inr st"
| "magicClauseLoop (clause # clauses) st =
     andThen (magicClauseStep clause st) (magicClauseLoop clauses)"

text \<open>The atoms that are literals of a clause body, in order.\<close>

fun bodyAtoms :: "AstLiteral list \<Rightarrow> AstAtom list" where
  "bodyAtoms [] = []"
| "bodyAtoms (Atom a # lits) = a # bodyAtoms lits"
| "bodyAtoms (lit # lits) = bodyAtoms lits"

text \<open>
  The pass. \<open>toAddOrder\<close> and \<open>toRemoveOrder\<close> give the order in which the two sets of
  owning pointers are iterated, as a rearrangement of the clauses inserted: first every
  clause to add is added to the program, then every clause to remove is removed.
\<close>

definition MagicSetTransformer_transform ::
  "(AstClause list \<Rightarrow> AstClause list) \<Rightarrow> (AstClause list \<Rightarrow> AstClause list) \<Rightarrow>
   AstProgram \<Rightarrow> Abort + (bool \<times> AstProgram)" where
  "MagicSetTransformer_transform toAddOrder toRemoveOrder program =
     andThen
       (magicClauseLoop (getClauses program)
          \<lparr>magicPredicatesSeen = {}, msProgram = program,
           clausesToRemove = [], clausesToAdd = []\<rparr>)
       (\<lambda>st. Inr (clausesToRemove st \<noteq> [] \<or> clausesToAdd st \<noteq> [],
                 fold removeClause (toRemoveOrder (clausesToRemove st))
                   (fold addClause (toAddOrder (clausesToAdd st)) (msProgram st))))"

text \<open>
  The specification's notions, in its own words. A name carries the adornment \<open>\<alpha>\<close>
  when its last qualifier is \<open>\<alpha>\<close> in braces, \<open>\<alpha>\<close> a string of \<open>b\<close> and \<open>f\<close>; it is
  unadorned when its last qualifier does not start with a brace, and marked when it
  does. The bound positions of
  \<open>\<alpha>\<close> are the positions \<open>i\<close> with \<open>\<alpha>[i] = b\<close>; of a sequence, the elements at the
  bound positions are taken in order. The refined clause of \<open>H\<^sup>\<alpha> :- B1, \<dots>, Bn\<close> is
  \<open>H\<^sup>\<alpha> :- magic_H\<^sup>\<alpha>, B1, \<dots>, Bn\<close>, the magic atom holding the arguments of \<open>H\<close> at the
  bound positions.
\<close>

definition spec_adornedWith :: "AstQualifiedName \<Rightarrow> string \<Rightarrow> bool" where
  "spec_adornedWith name \<alpha> =
     (name \<noteq> [] \<and> last name = ''{'' @ \<alpha> @ ''}'' \<and> set \<alpha> \<subseteq> {CHR ''b'', CHR ''f''})"

definition spec_unadorned :: "AstQualifiedName \<Rightarrow> bool" where
  "spec_unadorned name = (name \<noteq> [] \<and> last name \<noteq> [] \<and> hd (last name) \<noteq> CHR ''{'')"

definition spec_marked :: "AstQualifiedName \<Rightarrow> bool" where
  "spec_marked name = (name \<noteq> [] \<and> last name \<noteq> [] \<and> hd (last name) = CHR ''{'')"

definition spec_atBoundPositions :: "string \<Rightarrow> 'a list \<Rightarrow> 'a list" where
  "spec_atBoundPositions \<alpha> xs =
     map (\<lambda>i. xs ! i) (filter (\<lambda>i. i < length \<alpha> \<and> \<alpha> ! i = CHR ''b'') [0..<length xs])"

definition spec_magicAtom :: "string \<Rightarrow> AstAtom \<Rightarrow> AstAtom" where
  "spec_magicAtom \<alpha> atom =
     AstAtom (''@magic'' # getQualifiedName atom) (spec_atBoundPositions \<alpha> (getArguments atom))"

definition spec_refinedClause :: "string \<Rightarrow> AstClause \<Rightarrow> AstClause" where
  "spec_refinedClause \<alpha> clause =
     \<lparr>getHead = getHead clause,
      getBodyLiterals = Atom (spec_magicAtom \<alpha> (getHead clause)) # getBodyLiterals clause,
      hasExecutionPlan = False\<rparr>"

text \<open>
  What the Magic pass puts in the place of one clause, as specified: the clause itself
  when its head is unadorned and the refined clause when its head carries an adornment,
  together with one magic rule for every marked atom of the body, in the order of the
  body, the head of the rule being the magic atom of the body atom.
\<close>

definition spec_magicOutput :: "AstClause \<Rightarrow> AstClause \<Rightarrow> AstClause list \<Rightarrow> bool" where
  "spec_magicOutput clause refined rules =
     ((spec_unadorned (getQualifiedName (getHead clause)) \<longrightarrow> refined = clause) \<and>
      (\<forall>\<alpha>. spec_adornedWith (getQualifiedName (getHead clause)) \<alpha> \<longrightarrow>
             refined = spec_refinedClause \<alpha> clause) \<and>
      (spec_unadorned (getQualifiedName (getHead clause)) \<or>
       (\<exists>\<alpha>. spec_adornedWith (getQualifiedName (getHead clause)) \<alpha>)) \<and>
      map (\<lambda>r. getQualifiedName (getHead r)) rules =
        map (\<lambda>a. ''@magic'' # getQualifiedName a)
          (filter (\<lambda>a. spec_marked (getQualifiedName a)) (bodyAtoms (getBodyLiterals clause))))"

text \<open>
  The invariant of the Magic pass on the relations of the program: the relations added
  so far are exactly those of the magic predicates seen, one for each name, and each
  is the declaration of \<open>magic_R\<^sup>\<alpha>\<close> for a declared adorned relation \<open>R\<^sup>\<alpha>\<close>.
\<close>

definition magicDeclaration :: "AstProgram \<Rightarrow> AstRelation \<Rightarrow> bool" where
  "magicDeclaration program m =
     (\<exists>name \<alpha> rel. relName m = ''@magic'' # name \<and> spec_adornedWith name \<alpha> \<and>
        getRelation program name = Some rel \<and>
        length (getAttributes rel) \<le> Suc (length \<alpha>) \<and>
        getAttributes m = spec_atBoundPositions \<alpha> (getAttributes rel))"

definition magicInvariant :: "AstProgram \<Rightarrow> MagicState \<Rightarrow> bool" where
  "magicInvariant program st =
     (\<exists>added. getRelations (msProgram st) = getRelations program @ added \<and>
        set (map relName added) = magicPredicatesSeen st \<and>
        distinct (map relName added) \<and>
        (\<forall>m \<in> set added. magicDeclaration (msProgram st) m))"

section \<open>Nodes in depth-first order\<close>

text \<open>
  \<open>visitDepthFirst\<close> visits a node and then its children, in order. The visit for one
  kind of node is the selection of that kind from this list.
\<close>

datatype AstNode = ArgumentNode AstArgument | AtomNode AstAtom | LiteralNode AstLiteral

fun nodesOfArg :: "AstArgument \<Rightarrow> AstNode list"
and nodesOfAtom :: "AstAtom \<Rightarrow> AstNode list"
and nodesOfLit :: "AstLiteral \<Rightarrow> AstNode list"
where
  "nodesOfArg (AstVariable v) = [ArgumentNode (AstVariable v)]"
| "nodesOfArg AstUnnamedVariable = [ArgumentNode AstUnnamedVariable]"
| "nodesOfArg (AstNumberConstant n) = [ArgumentNode (AstNumberConstant n)]"
| "nodesOfArg (AstStringConstant s) = [ArgumentNode (AstStringConstant s)]"
| "nodesOfArg AstCounter = [ArgumentNode AstCounter]"
| "nodesOfArg (AstIntrinsicFunctor f as) =
     ArgumentNode (AstIntrinsicFunctor f as) # concat (map nodesOfArg as)"
| "nodesOfArg (AstUserDefinedFunctor f as) =
     ArgumentNode (AstUserDefinedFunctor f as) # concat (map nodesOfArg as)"
| "nodesOfArg (AstTypeCast v t) = ArgumentNode (AstTypeCast v t) # nodesOfArg v"
| "nodesOfArg (AstRecordInit t as) =
     ArgumentNode (AstRecordInit t as) # concat (map nodesOfArg as)"
| "nodesOfArg (AstAggregator op None body) =
     ArgumentNode (AstAggregator op None body) # concat (map nodesOfLit body)"
| "nodesOfArg (AstAggregator op (Some e) body) =
     ArgumentNode (AstAggregator op (Some e) body) # nodesOfArg e @ concat (map nodesOfLit body)"
| "nodesOfAtom (AstAtom n as) = AtomNode (AstAtom n as) # concat (map nodesOfArg as)"
| "nodesOfLit (Atom a) = nodesOfAtom a"
| "nodesOfLit (AstNegation a) = LiteralNode (AstNegation a) # nodesOfAtom a"
| "nodesOfLit (AstBinaryConstraint op l r) =
     LiteralNode (AstBinaryConstraint op l r) # nodesOfArg l @ nodesOfArg r"
| "nodesOfLit (AstBooleanConstraint b) = [LiteralNode (AstBooleanConstraint b)]"

definition nodesOfClause :: "AstClause \<Rightarrow> AstNode list" where
  "nodesOfClause clause =
     nodesOfAtom (getHead clause) @ concat (map nodesOfLit (getBodyLiterals clause))"

definition atomsIn :: "AstNode list \<Rightarrow> AstAtom list" where
  "atomsIn nodes = [a. AtomNode a \<leftarrow> nodes]"

definition constraintsIn :: "AstNode list \<Rightarrow> (BinaryConstraintOp \<times> AstArgument \<times> AstArgument) list" where
  "constraintsIn nodes = [(op, l, r). LiteralNode (AstBinaryConstraint op l r) \<leftarrow> nodes]"

definition functorOpsIn :: "AstNode list \<Rightarrow> FunctorOp list" where
  "functorOpsIn nodes = [f. ArgumentNode (AstIntrinsicFunctor f as) \<leftarrow> nodes]"

section \<open>Fact constancy\<close>

text \<open>
  The specification's notion, in its own words: a head argument is recursively constant
  when it is a constant, a constant-only intrinsic numeric functor (an intrinsic functor
  that is numerical and all of whose arguments are recursively constant), a record
  initialiser of recursively constant arguments, or a cast of a recursively constant
  argument.
\<close>

fun spec_recursivelyConstant :: "(FunctorOp \<Rightarrow> bool) \<Rightarrow> AstArgument \<Rightarrow> bool" where
  "spec_recursivelyConstant isNumerical (AstNumberConstant n) = True"
| "spec_recursivelyConstant isNumerical (AstStringConstant s) = True"
| "spec_recursivelyConstant isNumerical (AstIntrinsicFunctor f as) =
     (isNumerical f \<and> (\<forall>a \<in> set as. spec_recursivelyConstant isNumerical a))"
| "spec_recursivelyConstant isNumerical (AstRecordInit t as) =
     (\<forall>a \<in> set as. spec_recursivelyConstant isNumerical a)"
| "spec_recursivelyConstant isNumerical (AstTypeCast v t) = spec_recursivelyConstant isNumerical v"
| "spec_recursivelyConstant isNumerical _ = False"

text \<open>
  The narrower notion that the checker is compared with: below an intrinsic functor
  nothing but number constants and numerical intrinsic functors may occur (a constant
  arithmetic expression); constants, records and casts are as above.
\<close>

definition constantArithmetic :: "(FunctorOp \<Rightarrow> bool) \<Rightarrow> AstArgument \<Rightarrow> bool" where
  "constantArithmetic isNumerical a =
     (\<forall>node \<in> set (nodesOfArg a).
        case node of
          ArgumentNode (AstNumberConstant n) \<Rightarrow> True
        | ArgumentNode (AstIntrinsicFunctor f as) \<Rightarrow> isNumerical f
        | _ \<Rightarrow> False)"

fun constantInFact :: "(FunctorOp \<Rightarrow> bool) \<Rightarrow> AstArgument \<Rightarrow> bool" where
  "constantInFact isNumerical (AstNumberConstant n) = True"
| "constantInFact isNumerical (AstStringConstant s) = True"
| "constantInFact isNumerical (AstIntrinsicFunctor f as) =
     constantArithmetic isNumerical (AstIntrinsicFunctor f as)"
| "constantInFact isNumerical (AstRecordInit t as) =
     (\<forall>a \<in> set as. constantInFact isNumerical a)"
| "constantInFact isNumerical (AstTypeCast v t) = constantInFact isNumerical v"
| "constantInFact isNumerical _ = False"

section \<open>Analyses and utilities\<close>

text \<open>
  Modelled from the spec: the \<open>IOType\<close> analysis, \<open>getClauses(program, name)\<close> and
  \<open>toString\<close> of a qualified name are not part of the sources at hand. A relation is an
  input, output or printsize relation when the program has an I/O directive of that
  kind for its name; the clauses of a relation are the clauses of the program with that
  head name, in order; a qualified name prints with dots between its segments.
\<close>

definition hasIO :: "AstIoType \<Rightarrow> AstProgram \<Rightarrow> AstQualifiedName \<Rightarrow> bool" where
  "hasIO kind program n = (\<exists>io \<in> set (getIOs program). ioName io = n \<and> ioType io = kind)"

definition isInput :: "AstProgram \<Rightarrow> AstQualifiedName \<Rightarrow> bool" where
  "isInput = hasIO ioInput"

definition isOutput :: "AstProgram \<Rightarrow> AstQualifiedName \<Rightarrow> bool" where
  "isOutput = hasIO ioOutput"

definition isPrintSize :: "AstProgram \<Rightarrow> AstQualifiedName \<Rightarrow> bool" where
  "isPrintSize = hasIO ioPrintsize"

definition getClausesOf :: "AstProgram \<Rightarrow> AstQualifiedName \<Rightarrow> AstClause list" where
  "getClausesOf program n =
     filter (\<lambda>clause. getQualifiedName (getHead clause) = n) (getClauses program)"

fun toString :: "AstQualifiedName \<Rightarrow> string" where
  "toString [] = []"
| "toString [q] = q"
| "toString (q # qs) = q @ ''.'' @ toString qs"

section \<open>Adorn pass\<close>

text \<open>
  \<open>getIgnoredRelations\<close>. The value of the \<open>magic-transform\<close> option comes split at its
  commas, as \<open>specifiedRelations\<close>.
\<close>

definition hasRules :: "AstProgram \<Rightarrow> AstQualifiedName \<Rightarrow> bool" where
  "hasRules program n =
     (\<exists>clause \<in> set (getClausesOf program n).
        atomsIn (concat (map nodesOfLit (getBodyLiterals clause))) \<noteq> [])"

definition getIgnoredRelations :: "string list \<Rightarrow> AstProgram \<Rightarrow> AstQualifiedName set" where
  "getIgnoredRelations specifiedRelations program =
     (if ''*'' \<in> set specifiedRelations then {}
      else set [relName rel. rel \<leftarrow> getRelations program,
                toString (relName rel) \<notin> set specifiedRelations])
     \<union> set [relName rel. rel \<leftarrow> getRelations program,
              isInput program (relName rel) \<or> \<not> hasRules program (relName rel)]
     \<union> set [getQualifiedName a.
              a \<leftarrow> atomsIn (concat (map nodesOfClause (getClauses program))),
              getQualifiedName a \<noteq> [] \<and> hd (getQualifiedName a) = ''@neglabel'']
     \<union> set [getQualifiedName (getHead clause). clause \<leftarrow> getClauses program,
              \<exists>(op, l, r) \<in> set (constraintsIn (nodesOfClause clause)).
                 op \<in> {FEQ, FNE, FLE, FGE, FLT, FGT}]
     \<union> set [getQualifiedName (getHead clause). clause \<leftarrow> getClauses program,
              \<exists>f \<in> set (functorOpsIn (nodesOfClause clause)). f \<in> {MOD, FDIV, DIV, UMOD}]
     \<union> set [relName rel. rel \<leftarrow> getRelations program, getRepresentation rel = EQREL]
     \<union> set [getQualifiedName (getHead clause). clause \<leftarrow> getClauses program,
              hasExecutionPlan clause]"

type_synonym adorned_predicate = "AstQualifiedName \<times> string"

definition getAdornmentID :: "adorned_predicate \<Rightarrow> AstQualifiedName" where
  "getAdornmentID pred =
     (if snd pred = [] then fst pred else fst pred @ [''{'' @ snd pred @ ''}''])"

text \<open>
  Modelled from the spec: \<open>BindingStore\<close> is declared in a header that is not part of the
  sources at hand. It is the set of the variables bound so far: \<open>bindVariable\<close> and
  \<open>bindHeadVariable\<close> add a name, \<open>isBound\<close> tests membership, and the store of a clause
  starts empty.

  The ordered set \<open>headAdornmentsToDo\<close> is a sorted list without repetition, its least
  element first; \<open>insort_insert\<close> is the insertion into the set. Qualified names compare
  as sequences of strings, strings as sequences of characters.
\<close>

record AdornState =
  headAdornmentsToDo :: "adorned_predicate list"
  headAdornmentsSeen :: "AstQualifiedName set"
  adornedClauses :: "AstClause list"
  redundantClauses :: "AstClause list"
  relationsAdded :: "AstRelation list"

text \<open>
  The loop over the body literals of a clause (``Add in adorned body literals''): the
  literals are taken in the order of the body. An atom of a relation that is not ignored
  gets \<open>b\<close> for a bound and \<open>f\<close> for a free argument; its adorned name joins the
  work list when it has not been seen; then all its arguments are bound. The arguments
  of an atom are asserted to be variables.
\<close>

definition variableNames :: "AstArgument list \<Rightarrow> string list" where
  "variableNames args = [v. AstVariable v \<leftarrow> args]"







text \<open>
  An adorned program to run the passes on: \<open>Q(x) :- R{bf}(x, y).\<close> and
  \<open>R{bf}(x, y) :- E(x, z), S{b}(z), y = z.\<close>
\<close>

definition example_relation :: "AstQualifiedName \<Rightarrow> string list \<Rightarrow> AstRelation" where
  "example_relation n attrs =
     \<lparr>relName = n, getAttributes = map (\<lambda>a. (a, [''number''])) attrs,
      getRepresentation = DEFAULT\<rparr>"

definition example_clause :: "AstAtom \<Rightarrow> AstLiteral list \<Rightarrow> AstClause" where
  "example_clause h b = \<lparr>getHead = h, getBodyLiterals = b, hasExecutionPlan = False\<rparr>"

definition example_adorned :: AstProgram where
  "example_adorned =
     \<lparr>getRelations =
        [example_relation [''Q''] [''a''],
         example_relation [''E''] [''a'', ''b''],
         example_relation [''R'', ''{bf}''] [''a'', ''b''],
         example_relation [''S'', ''{b}''] [''a'']],
      getClauses =
        [example_clause (AstAtom [''Q''] [AstVariable ''x''])
           [Atom (AstAtom [''R'', ''{bf}''] [AstVariable ''x'', AstVariable ''y''])],
         example_clause (AstAtom [''R'', ''{bf}''] [AstVariable ''x'', AstVariable ''y''])
           [Atom (AstAtom [''E''] [AstVariable ''x'', AstVariable ''z'']),
            Atom (AstAtom [''S'', ''{b}''] [AstVariable ''z'']),
            AstBinaryConstraint EQ (AstVariable ''y'') (AstVariable ''z'')]],
      getIOs = [\<lparr>ioType = ioOutput, ioName = [''Q''], ioDirectives = []\<rparr>]\<rparr>"

definition example_magic :: AstProgram where
  "example_magic =
     \<lparr>getRelations =
        [example_relation [''Q''] [''a''],
         example_relation [''E''] [''a'', ''b''],
         example_relation [''R'', ''{bf}''] [''a'', ''b''],
         example_relation [''S'', ''{b}''] [''a''],
         example_relation [''@magic'', ''R'', ''{bf}''] [''a''],
         example_relation [''@magic'', ''S'', ''{b}''] [''a'']],
      getClauses =
        [example_clause (AstAtom [''Q''] [AstVariable ''x''])
           [Atom (AstAtom [''R'', ''{bf}''] [AstVariable ''x'', AstVariable ''y''])],
         example_clause (AstAtom [''@magic'', ''R'', ''{bf}''] [AstVariable ''x'']) [],
         example_clause (AstAtom [''R'', ''{bf}''] [AstVariable ''x'', AstVariable ''y''])
           [Atom (AstAtom [''@magic'', ''R'', ''{bf}''] [AstVariable ''x'']),
            Atom (AstAtom [''E''] [AstVariable ''x'', AstVariable ''z'']),
            Atom (AstAtom [''S'', ''{b}''] [AstVariable ''z'']),
            AstBinaryConstraint EQ (AstVariable ''y'') (AstVariable ''z'')],
         example_clause (AstAtom [''@magic'', ''S'', ''{b}''] [AstVariable ''z''])
           [Atom (AstAtom [''@magic'', ''R'', ''{bf}''] [AstVariable ''x'']),
            Atom (AstAtom [''E''] [AstVariable ''x'', AstVariable ''z''])]],
      getIOs = [\<lparr>ioType = ioOutput, ioName = [''Q''], ioDirectives = []\<rparr>]\<rparr>"









text \<open>
  The relations that the Adorn pass can process under the empty adornment: the output
  and printsize relations, the ignored relations, and the relations that a body atom
  uses without arguments.
\<close>

definition unadornedHead :: "string list \<Rightarrow> AstProgram \<Rightarrow> AstQualifiedName \<Rightarrow> bool" where
  "unadornedHead specifiedRelations program n =
     (isOutput program n \<or> isPrintSize program n \<or>
      n \<in> getIgnoredRelations specifiedRelations program \<or>
      (\<exists>clause \<in> set (getClauses program). \<exists>atom \<in> set (bodyAtoms (getBodyLiterals clause)).
         getQualifiedName atom = n \<and> getArguments atom = []))"

text \<open>
  The invariant of the work list loop on the clauses: an empty adornment in the work
  list belongs to such a relation; every redundant clause is a clause of the program
  with such a head, and an adorned clause with the same head stands for it.
\<close>

definition adornInvariant :: "string list \<Rightarrow> AstProgram \<Rightarrow> AdornState \<Rightarrow> bool" where
  "adornInvariant specifiedRelations program st =
     ((\<forall>p \<in> set (headAdornmentsToDo st).
         snd p = [] \<longrightarrow> unadornedHead specifiedRelations program (fst p)) \<and>
      (\<forall>c \<in> set (redundantClauses st).
         c \<in> set (getClauses program) \<and>
         unadornedHead specifiedRelations program (getQualifiedName (getHead c)) \<and>
         (\<exists>b. \<lparr>getHead = getHead c, getBodyLiterals = b,
               hasExecutionPlan = hasExecutionPlan c\<rparr> \<in> set (adornedClauses st))))"

text \<open>
  The second invariant of the work list loop. A head adornment has been processed when
  its adorned relation is declared (for a marker that is not empty) with the attributes
  of the relation found under the unadorned name, every clause of the relation has an
  adorned clause under the adorned name, and, for the empty marker, every clause of the
  relation is redundant. Every adorned name seen is the name of a head adornment that is
  in the work list or has been processed, and the atoms in the bodies of the adorned
  clauses have names that have been seen.
\<close>

definition adornProcessed :: "AstProgram \<Rightarrow> AdornState \<Rightarrow> adorned_predicate \<Rightarrow> bool" where
  "adornProcessed program st p =
     ((snd p \<noteq> [] \<longrightarrow>
         (\<exists>rel. find (\<lambda>r. relName r = fst p) (getRelations program @ relationsAdded st) = Some rel \<and>
            \<lparr>relName = getAdornmentID p, getAttributes = getAttributes rel,
             getRepresentation = DEFAULT\<rparr> \<in> set (relationsAdded st))) \<and>
      (\<forall>c \<in> set (getClausesOf program (fst p)).
         (snd p = [] \<longrightarrow> c \<in> set (redundantClauses st)) \<and>
         (\<exists>b. \<lparr>getHead = AstAtom (getAdornmentID p) (getArguments (getHead c)),
               getBodyLiterals = b,
               hasExecutionPlan = hasExecutionPlan c\<rparr> \<in> set (adornedClauses st))))"





text \<open>
  The order of the Adorn pass in closed form: the literal at a position is adorned
  against the variables bound at the start and the variables of all body atoms to its
  left.
\<close>

definition variablesBoundBy :: "AstLiteral list \<Rightarrow> string set" where
  "variablesBoundBy lits = (\<Union>a \<in> set (bodyAtoms lits). set (variableNames (getArguments a)))"

fun adornedAt :: "AstQualifiedName set \<Rightarrow> string set \<Rightarrow> AstLiteral \<Rightarrow> AstLiteral" where
  "adornedAt relationsToIgnore bound (Atom a) =
     Atom (setQualifiedName
             (getAdornmentID
                (getQualifiedName a,
                 if getQualifiedName a \<notin> relationsToIgnore
                 then map (\<lambda>v. if v \<in> bound then CHR ''b'' else CHR ''f'')
                          (variableNames (getArguments a))
                 else [])) a)"
| "adornedAt relationsToIgnore bound lit = lit"

section \<open>The SIPS of the legacy adornment\<close>

text \<open>
  \<open>OldBindingStore\<close> is declared in a header that is not part of the sources at hand.
  The functions below read the dependencies of a composite variable from it
  (\<open>getVariableDependencies\<close>) and add to its set of composite variables that are bound
  through their constituents (\<open>addVariableBoundComposite\<close>).
\<close>

record OldBindingStore =
  getVariableDependencies :: "string \<Rightarrow> string list"
  variableBoundComposites :: "string set"

definition hasPrefix :: "string \<Rightarrow> string \<Rightarrow> bool" where
  "hasPrefix str prefix = (take (length prefix) str = prefix)"

definition isBoundComposite ::
  "string \<Rightarrow> string set \<Rightarrow> OldBindingStore \<Rightarrow> bool \<times> OldBindingStore" where
  "isBoundComposite variableName boundArgs compositeBindings =
     (if variableName \<in> boundArgs then (True, compositeBindings)
      else if \<forall>var \<in> set (getVariableDependencies compositeBindings variableName). var \<in> boundArgs
      then (True, compositeBindings\<lparr>variableBoundComposites :=
                     insert variableName (variableBoundComposites compositeBindings)\<rparr>)
      else (False, compositeBindings))"

fun isBoundArgument ::
  "AstArgument \<Rightarrow> string set \<Rightarrow> OldBindingStore \<Rightarrow> Abort + (bool \<times> OldBindingStore)" where
  "isBoundArgument (AstVariable variableName) boundArgs compositeBindings =
     (if hasPrefix variableName ''+functor'' \<or> hasPrefix variableName ''+record'' then
        (case isBoundComposite variableName boundArgs compositeBindings of
           (True, compositeBindings') \<Rightarrow> Inr (True, compositeBindings')
         | (False, compositeBindings') \<Rightarrow> Inr (variableName \<in> boundArgs, compositeBindings'))
      else Inr (variableName \<in> boundArgs, compositeBindings))"
| "isBoundArgument arg boundArgs compositeBindings = Inl Fatal"

text \<open>The loop that counts the bound arguments of an atom.\<close>

fun countBound ::
  "AstArgument list \<Rightarrow> string set \<Rightarrow> int \<times> OldBindingStore \<Rightarrow> Abort + (int \<times> OldBindingStore)" where
  "countBound [] boundArgs s = Inr s"
| "countBound (arg # args) boundArgs (numBound, compositeBindings) =
     (case isBoundArgument arg boundArgs compositeBindings of
        Inl e \<Rightarrow> Inl e
      | Inr (bound, compositeBindings') \<Rightarrow>
          countBound args boundArgs
            (if bound then numBound + 1 else numBound, compositeBindings'))"

text \<open>
  \<open>getNextAtomMaxBoundSIPS\<close>: the loop over the atoms, at index \<open>i\<close>; an atom that is
  done is a null pointer, here \<open>None\<close>.
\<close>

fun maxBoundLoop ::
  "nat \<Rightarrow> AstAtom option list \<Rightarrow> string set \<Rightarrow> AstQualifiedName set \<Rightarrow>
   int \<times> nat \<times> bool \<times> OldBindingStore \<Rightarrow> Abort + (int \<times> nat \<times> bool \<times> OldBindingStore)" where
  "maxBoundLoop i [] boundArgs edb s = Inr s"
| "maxBoundLoop i (None # atoms) boundArgs edb s = maxBoundLoop (Suc i) atoms boundArgs edb s"
| "maxBoundLoop i (Some currAtom # atoms) boundArgs edb (maxBound, maxIndex, maxIsEDB, compositeBindings) =
     (case countBound (getArguments currAtom) boundArgs (0, compositeBindings) of
        Inl e \<Rightarrow> Inl e
      | Inr (numBound, compositeBindings') \<Rightarrow>
          if numBound > maxBound then
            maxBoundLoop (Suc i) atoms boundArgs edb
              (numBound, i, getQualifiedName currAtom \<in> edb, compositeBindings')
          else if \<not> maxIsEDB \<and> numBound = maxBound \<and> getQualifiedName currAtom \<in> edb then
            maxBoundLoop (Suc i) atoms boundArgs edb (maxBound, i, True, compositeBindings')
          else
            maxBoundLoop (Suc i) atoms boundArgs edb
              (maxBound, maxIndex, maxIsEDB, compositeBindings'))"

definition getNextAtomMaxBoundSIPS ::
  "AstAtom option list \<Rightarrow> string set \<Rightarrow> AstQualifiedName set \<Rightarrow> OldBindingStore \<Rightarrow>
   Abort + (nat \<times> OldBindingStore)" where
  "getNextAtomMaxBoundSIPS atoms boundArgs edb compositeBindings =
     (case maxBoundLoop 0 atoms boundArgs edb (- 1, 0, False, compositeBindings) of
        Inl e \<Rightarrow> Inl e
      | Inr (maxBound, maxIndex, maxIsEDB, compositeBindings') \<Rightarrow>
          Inr (maxIndex, compositeBindings'))"

definition getNextAtomSIPS ::
  "AstAtom option list \<Rightarrow> string set \<Rightarrow> AstQualifiedName set \<Rightarrow> OldBindingStore \<Rightarrow>
   Abort + (nat \<times> OldBindingStore)" where
  "getNextAtomSIPS = getNextAtomMaxBoundSIPS"

text \<open>
  The policy in the words of the specification: the unprocessed atom with the most
  bound argument positions; among those, an atom of an EDB relation before the others;
  among those, the left-most.
\<close>

definition spec_isBound :: "OldBindingStore \<Rightarrow> string set \<Rightarrow> string \<Rightarrow> bool" where
  "spec_isBound compositeBindings boundArgs v =
     (v \<in> boundArgs \<or>
      ((hasPrefix v ''+functor'' \<or> hasPrefix v ''+record'') \<and>
       (\<forall>d \<in> set (getVariableDependencies compositeBindings v). d \<in> boundArgs)))"

definition spec_numBound :: "OldBindingStore \<Rightarrow> string set \<Rightarrow> AstAtom \<Rightarrow> nat" where
  "spec_numBound compositeBindings boundArgs atom =
     length (filter (spec_isBound compositeBindings boundArgs) (variableNames (getArguments atom)))"

definition spec_maxBoundChoice ::
  "OldBindingStore \<Rightarrow> string set \<Rightarrow> AstQualifiedName set \<Rightarrow> AstAtom option list \<Rightarrow> nat \<Rightarrow> bool" where
  "spec_maxBoundChoice compositeBindings boundArgs edb atoms r =
     (r < length atoms \<and>
      (case atoms ! r of
         None \<Rightarrow> False
       | Some chosen \<Rightarrow>
           (\<forall>j < length atoms.
              case atoms ! j of
                None \<Rightarrow> True
              | Some other \<Rightarrow>
                  spec_numBound compositeBindings boundArgs other
                    \<le> spec_numBound compositeBindings boundArgs chosen \<and>
                  (spec_numBound compositeBindings boundArgs other
                     = spec_numBound compositeBindings boundArgs chosen \<longrightarrow>
                   (getQualifiedName other \<in> edb \<longrightarrow> getQualifiedName chosen \<in> edb) \<and>
                   ((getQualifiedName other \<in> edb) = (getQualifiedName chosen \<in> edb)
                      \<longrightarrow> r \<le> j)))))"

section \<open>Verified properties\<close>

subsection \<open>Facts contain only constants\<close>

lemma nodesOfArg_self: "ArgumentNode a \<in> set (nodesOfArg a)"
proof (cases a)
  case (AstAggregator op target body)
  then show ?thesis by (cases target) simp_all
qed simp_all

lemma isConstantArithExpr_spec:
  "isConstantArithExpr N a = constantArithmetic N a"
proof (induction N a rule: isConstantArithExpr.induct)
  case (1 N n)
  show ?case by (simp add: constantArithmetic_def)
next
  case (2 N f as)
  then show ?case by (auto simp: constantArithmetic_def list_all_iff)
qed (use nodesOfArg_self in \<open>force simp: constantArithmetic_def\<close>)+

lemma checkConstant_shape:
  "\<not> reachesUnknownCase a \<Longrightarrow>
     \<exists>errs. checkConstant N report a = Inr (report @ errs) \<and>
            (errs = [] \<longleftrightarrow> constantInFact N a)"
  "\<forall>a \<in> set as. \<not> reachesUnknownCase a \<Longrightarrow>
     \<exists>errs. checkConstants N report as = Inr (report @ errs) \<and>
            (errs = [] \<longleftrightarrow> (\<forall>a \<in> set as. constantInFact N a))"
  by (induction N report a and N report as rule: checkConstant_checkConstants.induct)
     (auto simp: addError_def isConstantArithExpr_spec)

lemma checkConstant_append:
  "checkConstant N (r1 @ r2) a =
     (case checkConstant N r2 a of Inl e \<Rightarrow> Inl e | Inr es \<Rightarrow> Inr (r1 @ es))"
  "checkConstants N (r1 @ r2) as =
     (case checkConstants N r2 as of Inl e \<Rightarrow> Inl e | Inr es \<Rightarrow> Inr (r1 @ es))"
  by (induction N r2 a and N r2 as rule: checkConstant_checkConstants.induct)
     (auto simp: addError_def split: sum.splits)

lemma checkConstant_factErrors:
  assumes "\<not> reachesUnknownCase a"
  shows "checkConstant N report a = Inr (report @ factErrors N a)"
proof -
  from checkConstant_shape(1) [OF assms, of N "[]"]
  obtain errs where "checkConstant N [] a = Inr errs" by auto
  then show ?thesis
    using checkConstant_append(1) [of N report "[]" a] by (simp add: factErrors_def)
qed

lemma factErrors_empty_iff:
  assumes "\<not> reachesUnknownCase a"
  shows "factErrors N a = [] \<longleftrightarrow> constantInFact N a"
  using checkConstant_shape(1) [OF assms, of N "[]"] by (auto simp: factErrors_def)

lemma checkConstants_factErrors:
  "\<forall>a \<in> set as. \<not> reachesUnknownCase a \<Longrightarrow>
     checkConstants N report as = Inr (report @ concat (map (factErrors N) as))"
  by (induction as arbitrary: report) (simp_all add: checkConstant_factErrors)

text \<open>
  C8 (as amended). For a fact whose head arguments reach no aggregator through casts
  and record initialisers: when the head relation is not declared, \<open>checkFact\<close> reports
  nothing; when it is declared, \<open>checkFact\<close> appends to the report the diagnostics of
  the head arguments, in order, and the diagnostics of a head argument are empty
  exactly when the argument is a constant, an intrinsic functor below which only number
  constants and numerical intrinsic functors occur, a record initialiser of such
  arguments or a cast of one. So variables, underscores, user-defined functors,
  counters and every other intrinsic functor are reported.
\<close>

theorem checkFact_reports_exactly_nonconstants:
  assumes "isFact cl"
    and "\<forall>a \<in> set (getArguments (getHead cl)). \<not> reachesUnknownCase a"
  shows "checkFact N report program cl =
           Inr (report @
                (if getRelation program (getQualifiedName (getHead cl)) = None then []
                 else concat (map (factErrors N) (getArguments (getHead cl))))) \<and>
         (\<forall>a \<in> set (getArguments (getHead cl)).
            factErrors N a = [] \<longleftrightarrow> constantInFact N a)"
  using assms
  by (auto simp: checkFact_def checkConstants_factErrors factErrors_empty_iff
           split: option.splits)

theorem checkFact_reports_exactly_nonconstants_witness:
  "checkFact example_isNumerical [] (example_declaring [''A''])
     (example_fact [''A'']
        [AstNumberConstant 1, AstVariable ''x'',
         AstRecordInit [''T''] [AstStringConstant ''s'', AstUnnamedVariable],
         AstIntrinsicFunctor (OtherFunctorOp ''add'') [AstNumberConstant 1, AstNumberConstant 2],
         AstIntrinsicFunctor (OtherFunctorOp ''cat'') [AstStringConstant ''a''],
         AstTypeCast AstCounter [''number'']]) =
   Inr [(''Variable x in fact'', AstVariable ''x''),
        (''Underscore in fact'', AstUnnamedVariable),
        (''Function in fact'',
           AstIntrinsicFunctor (OtherFunctorOp ''cat'') [AstStringConstant ''a'']),
        (''Counter in fact'', AstCounter)] \<and>
   factErrors example_isNumerical (AstNumberConstant 1) = [] \<and>
   constantInFact example_isNumerical (AstNumberConstant 1) \<and>
   factErrors example_isNumerical (AstVariable ''x'') \<noteq> [] \<and>
   \<not> constantInFact example_isNumerical (AstVariable ''x'')"
  using checkFact_reports_exactly_nonconstants
    [of "example_fact [''A'']
        [AstNumberConstant 1, AstVariable ''x'',
         AstRecordInit [''T''] [AstStringConstant ''s'', AstUnnamedVariable],
         AstIntrinsicFunctor (OtherFunctorOp ''add'') [AstNumberConstant 1, AstNumberConstant 2],
         AstIntrinsicFunctor (OtherFunctorOp ''cat'') [AstStringConstant ''a''],
         AstTypeCast AstCounter [''number'']]"
       example_isNumerical "[]" "example_declaring [''A'']"]
  by (simp add: example_fact_def example_declaring_def example_isNumerical_def isFact_def
      getRelation_def factErrors_def addError_def)

text \<open>
  C8 as stated fails in two ways. A fact of an undeclared relation is not checked at
  all: its variable is not recursively constant, yet nothing is reported. And a
  numerical functor over a cast of a constant is a constant-only numeric functor in the
  words of the specification, yet it is reported as a function in a fact.
\<close>

theorem checkFact_undeclared_and_functor_counterexample:
  "isFact (example_fact [''B''] [AstVariable ''x'']) \<and>
   checkFact example_isNumerical [] (example_declaring [''A''])
     (example_fact [''B''] [AstVariable ''x'']) = Inr [] \<and>
   \<not> spec_recursivelyConstant example_isNumerical (AstVariable ''x'') \<and>
   checkFact example_isNumerical [] (example_declaring [''A''])
     (example_fact [''A'']
        [AstIntrinsicFunctor (OtherFunctorOp ''sub'')
           [AstTypeCast (AstNumberConstant 1) [''number''], AstNumberConstant 1]]) =
   Inr [(''Function in fact'',
         AstIntrinsicFunctor (OtherFunctorOp ''sub'')
           [AstTypeCast (AstNumberConstant 1) [''number''], AstNumberConstant 1])] \<and>
   spec_recursivelyConstant example_isNumerical
     (AstIntrinsicFunctor (OtherFunctorOp ''sub'')
        [AstTypeCast (AstNumberConstant 1) [''number''], AstNumberConstant 1])"
  by (simp add: checkFact_def example_fact_def example_declaring_def isFact_def getRelation_def
      example_isNumerical_def addError_def)

subsection \<open>Magic pass: refinement of adorned clauses\<close>

lemma andThen_Inr_iff: "andThen m f = Inr y \<longleftrightarrow> (\<exists>x. m = Inr x \<and> f x = Inr y)"
  by (cases m) (simp_all add: andThen_def)

lemma andThen_simps [simp]: "andThen (Inl e) f = Inl e" "andThen (Inr x) f = f x"
  by (simp_all add: andThen_def)

lemma getAdornment_spec: "getAdornment n = Inr \<alpha> \<longleftrightarrow> spec_adornedWith n \<alpha>"
proof
  assume "getAdornment n = Inr \<alpha>"
  then have ad: "isAdorned n = Inr True" and \<alpha>: "\<alpha> = butlast (tl (last n))"
    by (auto simp: getAdornment_def andThen_Inr_iff split: if_splits)
  from ad have n: "n \<noteq> []" and q: "last n \<noteq> []" and h: "hd (last n) = CHR ''{''"
    and l: "last (last n) = CHR ''}''"
    and bf: "\<forall>c \<in> set (butlast (tl (last n))). c = CHR ''b'' \<or> c = CHR ''f''"
    by (auto simp: isAdorned_def Let_def split: if_splits)
  from q h obtain cs where qc: "last n = CHR ''{'' # cs" by (cases "last n") auto
  have t: "cs \<noteq> []"
  proof
    assume "cs = []"
    with qc l show False by simp
  qed
  then have "cs = butlast cs @ [last cs]" by simp
  moreover have "last cs = CHR ''}''" using t qc l by simp
  moreover have "\<alpha> = butlast cs" using \<alpha> qc by simp
  ultimately have "cs = \<alpha> @ ''}''" by simp
  with qc have "last n = ''{'' @ \<alpha> @ ''}''" by simp
  moreover from bf \<alpha> have "set \<alpha> \<subseteq> {CHR ''b'', CHR ''f''}" by auto
  ultimately show "spec_adornedWith n \<alpha>" using n by (simp add: spec_adornedWith_def)
next
  assume "spec_adornedWith n \<alpha>"
  then show "getAdornment n = Inr \<alpha>"
    by (auto simp: spec_adornedWith_def getAdornment_def isAdorned_def Let_def butlast_append)
qed

lemma isAdorned_False_spec: "isAdorned n = Inr False \<longleftrightarrow> spec_unadorned n"
  by (auto simp: isAdorned_def spec_unadorned_def Let_def)


lemma isAdorned_marked: "isAdorned n = Inr b \<Longrightarrow> spec_marked n = b"
  by (auto simp: isAdorned_def spec_marked_def Let_def split: if_splits)

lemma spec_adornedWith_unique:
  "spec_adornedWith n \<alpha> \<Longrightarrow> spec_adornedWith n \<beta> \<Longrightarrow> \<alpha> = \<beta>"
  by (simp add: spec_adornedWith_def)

lemma spec_adornedWith_not_unadorned: "spec_adornedWith n \<alpha> \<Longrightarrow> \<not> spec_unadorned n"
  by (simp add: spec_adornedWith_def spec_unadorned_def)

lemma charAt_Inl: "charAt s i = Inl e \<longleftrightarrow> length s < i \<and> e = OutOfRange"
  by (auto simp: charAt_def)

lemma boundPositionsFrom_result:
  "boundPositionsFrom i \<alpha> xs =
     (if xs \<noteq> [] \<and> Suc (length \<alpha>) < i + length xs then Inl OutOfRange
      else Inr (map (\<lambda>j. xs ! j)
                  (filter (\<lambda>j. i + j < length \<alpha> \<and> \<alpha> ! (i + j) = CHR ''b'') [0..<length xs])))"
proof (induction xs arbitrary: i)
  case Nil
  show ?case by simp
next
  case (Cons x xs)
  have upt: "[0..<length (x # xs)] = 0 # map Suc [0..<length xs]"
    by (simp add: upt_conv_Cons map_Suc_upt del: upt_Suc)
  show ?case
  proof (cases "length \<alpha> < i")
    case True
    then show ?thesis by (simp add: charAt_def)
  next
    case False
    define c where "c = (if i < length \<alpha> then \<alpha> ! i else CHR 0x00)"
    have c: "charAt \<alpha> i = Inr c"
      "c = CHR ''b'' \<longleftrightarrow> i < length \<alpha> \<and> \<alpha> ! i = CHR ''b''"
      using False by (simp_all add: charAt_def c_def)
    show ?thesis
      unfolding boundPositionsFrom.simps c(1) Cons.IH upt
      using False c(2) by (auto simp: filter_map comp_def)
  qed
qed

lemma boundPositions_result:
  "boundPositions \<alpha> xs =
     (if Suc (length \<alpha>) < length xs then Inl OutOfRange else Inr (spec_atBoundPositions \<alpha> xs))"
  unfolding boundPositions_def boundPositionsFrom_result spec_atBoundPositions_def by auto


lemma createMagicAtom_result:
  assumes "createMagicAtom st atom = Inr (magicAtom, st')"
  shows "\<exists>\<alpha>. spec_adornedWith (getQualifiedName atom) \<alpha> \<and> magicAtom = spec_magicAtom \<alpha> atom"
    and "clausesToAdd st' = clausesToAdd st"
    and "clausesToRemove st' = clausesToRemove st"
    and "getClauses (msProgram st') = getClauses (msProgram st)"
  using assms
  by (auto simp: createMagicAtom_def Let_def andThen_Inr_iff addRelation_def getAdornment_spec
                 boundPositions_result spec_magicAtom_def
           split: if_splits option.splits)

lemma createMagicClause_result:
  assumes "createMagicClause st atom left eqs = Inr (magicClause, st')"
  shows "clausesToAdd st' = clausesToAdd st"
    and "clausesToRemove st' = clausesToRemove st"
    and "getClauses (msProgram st') = getClauses (msProgram st)"
    and "getQualifiedName (getHead magicClause) = ''@magic'' # getQualifiedName atom"
proof -
  from assms obtain magicHead where m: "createMagicAtom st atom = Inr (magicHead, st')"
    and h: "getHead magicClause = magicHead"
    by (cases "createMagicAtom st atom") (auto simp: createMagicClause_def Let_def)
  from createMagicAtom_result(2-4) [OF m]
  show "clausesToAdd st' = clausesToAdd st"
    and "clausesToRemove st' = clausesToRemove st"
    and "getClauses (msProgram st') = getClauses (msProgram st)" .
  from createMagicAtom_result(1) [OF m] h
  show "getQualifiedName (getHead magicClause) = ''@magic'' # getQualifiedName atom"
    by (auto simp: spec_magicAtom_def)
qed

text \<open>The names of the heads of the magic rules of a body, as specified.\<close>

lemma addMagicRules_result:
  "addMagicRules eqs lits left st = Inr st' \<Longrightarrow>
     (\<exists>rules. clausesToAdd st' = clausesToAdd st @ rules \<and>
        map (\<lambda>r. getQualifiedName (getHead r)) rules =
          map (\<lambda>a. ''@magic'' # getQualifiedName a)
            (filter (\<lambda>a. spec_marked (getQualifiedName a)) (bodyAtoms lits))) \<and>
     clausesToRemove st' = clausesToRemove st \<and>
     getClauses (msProgram st') = getClauses (msProgram st)"
proof (induction lits arbitrary: left st)
  case Nil
  then show ?case by simp
next
  case (Cons lit lits)
  show ?case
  proof (cases lit)
    case (Atom atom)
    from Cons.prems Atom obtain adorned where
      ad: "isAdorned (getQualifiedName atom) = Inr adorned"
      by (cases "isAdorned (getQualifiedName atom)") simp_all
    from isAdorned_marked [OF ad] have mk: "spec_marked (getQualifiedName atom) = adorned" .
    show ?thesis
    proof (cases adorned)
      case False
      with Cons.prems Atom ad
      have "addMagicRules eqs lits (left @ [atom]) st = Inr st'" by simp
      from Cons.IH [OF this] mk False Atom show ?thesis by simp
    next
      case True
      with Cons.prems Atom ad obtain magicClause st1 where
        mc: "createMagicClause st atom left eqs = Inr (magicClause, st1)"
        and rest: "addMagicRules eqs lits (left @ [atom])
                     (st1\<lparr>clausesToAdd := clausesToAdd st1 @ [magicClause]\<rparr>) = Inr st'"
        by (cases "createMagicClause st atom left eqs") auto
      from Cons.IH [OF rest] obtain rules where
        r: "clausesToAdd st' = (clausesToAdd st1 @ [magicClause]) @ rules"
           "map (\<lambda>r. getQualifiedName (getHead r)) rules =
              map (\<lambda>a. ''@magic'' # getQualifiedName a)
                (filter (\<lambda>a. spec_marked (getQualifiedName a)) (bodyAtoms lits))"
           "clausesToRemove st' = clausesToRemove st1"
           "getClauses (msProgram st') = getClauses (msProgram st1)" by auto
      from r(1) createMagicClause_result(1) [OF mc]
      have 1: "clausesToAdd st' = clausesToAdd st @ (magicClause # rules)" by simp
      have 2: "map (\<lambda>r. getQualifiedName (getHead r)) (magicClause # rules) =
              map (\<lambda>a. ''@magic'' # getQualifiedName a)
                (filter (\<lambda>a. spec_marked (getQualifiedName a)) (bodyAtoms (lit # lits)))"
        using r(2) createMagicClause_result(4) [OF mc] mk True Atom by simp
      from 1 2 r(3,4) createMagicClause_result(2,3) [OF mc] show ?thesis by metis
    qed
  next
    case (AstNegation a)
    with Cons.prems have "addMagicRules eqs lits left st = Inr st'" by simp
    from Cons.IH [OF this] AstNegation show ?thesis by simp
  next
    case (AstBinaryConstraint op l r)
    with Cons.prems have "addMagicRules eqs lits left st = Inr st'" by simp
    from Cons.IH [OF this] AstBinaryConstraint show ?thesis by simp
  next
    case (AstBooleanConstraint b)
    with Cons.prems have "addMagicRules eqs lits left st = Inr st'" by simp
    from Cons.IH [OF this] AstBooleanConstraint show ?thesis by simp
  qed
qed

lemma getClauses_fold_addClause: "getClauses (fold addClause cs p) = getClauses p @ cs"
  by (induction cs arbitrary: p) (simp_all add: addClause_def)

lemma getClauses_fold_removeClause:
  "getClauses (fold removeClause cs p) = fold remove1 cs (getClauses p)"
  by (induction cs arbitrary: p) (simp_all add: removeClause_def)



lemma fold_remove1_rearranged: "mset rs = mset xs \<Longrightarrow> fold remove1 rs (xs @ ys) = ys"
proof (induction rs arbitrary: xs)
  case Nil
  then show ?case by simp
next
  case (Cons r rs)
  from Cons.prems have "r \<in># mset xs" by (metis mset.simps(2) union_single_eq_member)
  then have r: "r \<in> set xs" by simp
  then have 1: "remove1 r (xs @ ys) = remove1 r xs @ ys" by (simp add: remove1_append)
  from Cons.prems have "mset rs = mset (remove1 r xs)"
    by (metis add_mset_remove_trivial mset.simps(2) mset_remove1)
  from Cons.IH [OF this] 1 show ?case by simp
qed

text \<open>What the refined clause and the magic rules of one clause are, as specified.\<close>

lemma magicClauseStep_result:
  assumes "magicClauseStep clause st = Inr st'"
  shows "clausesToRemove st' = clausesToRemove st @ [clause]"
    and "getClauses (msProgram st') = getClauses (msProgram st)"
    and "\<exists>refined rules. clausesToAdd st' = clausesToAdd st @ refined # rules \<and>
           spec_magicOutput clause refined rules"
  unfolding spec_magicOutput_def
proof -
  let ?st = "st\<lparr>clausesToRemove := clausesToRemove st @ [clause]\<rparr>"
  let ?head = "getHead clause"
  let ?n = "getQualifiedName ?head"
  let ?names = "map (\<lambda>a. ''@magic'' # getQualifiedName a)
               (filter (\<lambda>a. spec_marked (getQualifiedName a)) (bodyAtoms (getBodyLiterals clause)))"
  from assms obtain adorned where ad: "isAdorned ?n = Inr adorned"
    by (cases "isAdorned ?n") (simp_all add: magicClauseStep_def Let_def)
  have "clausesToRemove st' = clausesToRemove st @ [clause] \<and>
        getClauses (msProgram st') = getClauses (msProgram st) \<and>
        (\<exists>refined rules. clausesToAdd st' = clausesToAdd st @ refined # rules \<and>
           (spec_unadorned ?n \<longrightarrow> refined = clause) \<and>
           (\<forall>\<alpha>. spec_adornedWith ?n \<alpha> \<longrightarrow> refined = spec_refinedClause \<alpha> clause) \<and>
           (spec_unadorned ?n \<or> (\<exists>\<alpha>. spec_adornedWith ?n \<alpha>)) \<and>
           map (\<lambda>r. getQualifiedName (getHead r)) rules = ?names)"
  proof (cases adorned)
    case False
    with ad have un: "spec_unadorned ?n" by (simp add: isAdorned_False_spec)
    then have no: "\<not> spec_adornedWith ?n \<alpha>" for \<alpha>
      using spec_adornedWith_not_unadorned by blast
    from assms ad False
    have "addMagicRules (getEqualityConstraints clause) (getBodyLiterals clause) []
            (?st\<lparr>clausesToAdd := clausesToAdd ?st @ [clause]\<rparr>) = Inr st'"
      by (simp add: magicClauseStep_def Let_def)
    from addMagicRules_result [OF this] obtain rules where
      r: "clausesToAdd st' = clausesToAdd st @ clause # rules"
         "map (\<lambda>r. getQualifiedName (getHead r)) rules = ?names"
         "clausesToRemove st' = clausesToRemove st @ [clause]"
         "getClauses (msProgram st') = getClauses (msProgram st)" by auto
    from r(1,2) un no
    have "clausesToAdd st' = clausesToAdd st @ clause # rules \<and>
           (spec_unadorned ?n \<longrightarrow> clause = clause) \<and>
           (\<forall>\<alpha>. spec_adornedWith ?n \<alpha> \<longrightarrow> clause = spec_refinedClause \<alpha> clause) \<and>
           (spec_unadorned ?n \<or> (\<exists>\<alpha>. spec_adornedWith ?n \<alpha>)) \<and>
           map (\<lambda>r. getQualifiedName (getHead r)) rules = ?names" by simp
    then show ?thesis using r(3,4) by blast
  next
    case True
    from assms ad True obtain magicAtom st1 where
      m1: "createMagicAtom ?st ?head = Inr (magicAtom, st1)"
      by (cases "createMagicAtom ?st ?head") (auto simp: magicClauseStep_def Let_def)
    let ?refined = "\<lparr>getHead = ?head, getBodyLiterals = Atom magicAtom # getBodyLiterals clause,
                     hasExecutionPlan = False\<rparr>"
    let ?st2 = "st1\<lparr>clausesToAdd := clausesToAdd st1 @ [?refined]\<rparr>"
    from assms ad True m1 obtain magicAtom' st3 where
      m2: "createMagicAtom ?st2 ?head = Inr (magicAtom', st3)"
      by (cases "createMagicAtom ?st2 ?head") (auto simp: magicClauseStep_def Let_def)
    from assms ad True m1 m2
    have rest: "addMagicRules (getEqualityConstraints clause) (getBodyLiterals clause)
                  [magicAtom'] st3 = Inr st'"
      by (simp add: magicClauseStep_def Let_def)
    from createMagicAtom_result(1) [OF m1] obtain \<alpha> where
      al: "spec_adornedWith ?n \<alpha>" and ma: "magicAtom = spec_magicAtom \<alpha> ?head" by blast
    have sp: "?refined = spec_refinedClause \<beta> clause" if "spec_adornedWith ?n \<beta>" for \<beta>
      using spec_adornedWith_unique [OF that al] ma by (simp add: spec_refinedClause_def)
    from al have un: "\<not> spec_unadorned ?n" by (rule spec_adornedWith_not_unadorned)
    from addMagicRules_result [OF rest] obtain rules where
      r: "clausesToAdd st' = clausesToAdd st3 @ rules"
         "map (\<lambda>r. getQualifiedName (getHead r)) rules = ?names"
         "clausesToRemove st' = clausesToRemove st3"
         "getClauses (msProgram st') = getClauses (msProgram st3)" by auto
    from r(1) createMagicAtom_result(2) [OF m1] createMagicAtom_result(2) [OF m2]
    have 1: "clausesToAdd st' = clausesToAdd st @ ?refined # rules" by simp
    from r(3) createMagicAtom_result(3) [OF m1] createMagicAtom_result(3) [OF m2]
    have 2: "clausesToRemove st' = clausesToRemove st @ [clause]" by simp
    from r(4) createMagicAtom_result(4) [OF m1] createMagicAtom_result(4) [OF m2]
    have 3: "getClauses (msProgram st') = getClauses (msProgram st)" by simp
    have "clausesToAdd st' = clausesToAdd st @ ?refined # rules \<and>
           (spec_unadorned ?n \<longrightarrow> ?refined = clause) \<and>
           (\<forall>\<alpha>. spec_adornedWith ?n \<alpha> \<longrightarrow> ?refined = spec_refinedClause \<alpha> clause) \<and>
           (spec_unadorned ?n \<or> (\<exists>\<alpha>. spec_adornedWith ?n \<alpha>)) \<and>
           map (\<lambda>r. getQualifiedName (getHead r)) rules = ?names"
      using 1 un sp al r(2) by blast
    then show ?thesis using 2 3 by blast
  qed
  then show "clausesToRemove st' = clausesToRemove st @ [clause]"
    and "getClauses (msProgram st') = getClauses (msProgram st)"
    and "\<exists>refined rules. clausesToAdd st' = clausesToAdd st @ refined # rules \<and>
           (spec_unadorned ?n \<longrightarrow> refined = clause) \<and>
           (\<forall>\<alpha>. spec_adornedWith ?n \<alpha> \<longrightarrow> refined = spec_refinedClause \<alpha> clause) \<and>
           (spec_unadorned ?n \<or> (\<exists>\<alpha>. spec_adornedWith ?n \<alpha>)) \<and>
           map (\<lambda>r. getQualifiedName (getHead r)) rules = ?names"
    by blast+
qed

lemma magicClauseLoop_result:
  "magicClauseLoop clauses st = Inr st' \<Longrightarrow>
     clausesToRemove st' = clausesToRemove st @ clauses \<and>
     getClauses (msProgram st') = getClauses (msProgram st) \<and>
     (\<exists>refined rules.
        length refined = length clauses \<and> length rules = length clauses \<and>
        mset (clausesToAdd st') = mset (clausesToAdd st) + (mset refined + mset (concat rules)) \<and>
        (\<forall>i < length clauses. spec_magicOutput (clauses ! i) (refined ! i) (rules ! i)))"
proof (induction clauses arbitrary: st)
  case Nil
  then show ?case by simp
next
  case (Cons clause clauses)
  from Cons.prems obtain st1 where
    s1: "magicClauseStep clause st = Inr st1" and rest: "magicClauseLoop clauses st1 = Inr st'"
    by (cases "magicClauseStep clause st") simp_all
  from magicClauseStep_result [OF s1] obtain r rs where
    r: "clausesToRemove st1 = clausesToRemove st @ [clause]"
       "getClauses (msProgram st1) = getClauses (msProgram st)"
       "clausesToAdd st1 = clausesToAdd st @ r # rs"
       "spec_magicOutput clause r rs" by blast
  from Cons.IH [OF rest] obtain refined rules where
    o: "clausesToRemove st' = clausesToRemove st1 @ clauses"
       "getClauses (msProgram st') = getClauses (msProgram st1)"
       "length refined = length clauses" "length rules = length clauses"
       "mset (clausesToAdd st') = mset (clausesToAdd st1) + (mset refined + mset (concat rules))"
       "\<forall>i < length clauses. spec_magicOutput (clauses ! i) (refined ! i) (rules ! i)" by blast
  have 1: "length (r # refined) = length (clause # clauses)"
    and 2: "length (rs # rules) = length (clause # clauses)" using o(3,4) by simp_all
  have 3: "mset (clausesToAdd st') =
             mset (clausesToAdd st) + (mset (r # refined) + mset (concat (rs # rules)))"
    using o(5) r(3) by simp
  have 4: "\<forall>i < length (clause # clauses).
             spec_magicOutput ((clause # clauses) ! i) ((r # refined) ! i) ((rs # rules) ! i)"
    using o(6) r(4) by (auto simp: nth_Cons split: nat.splits)
  have 5: "clausesToRemove st' = clausesToRemove st @ clause # clauses" using o(1) r(1) by simp
  have 6: "getClauses (msProgram st') = getClauses (msProgram st)" using o(2) r(2) by simp
  from 1 2 3 4 5 6 show ?case by blast
qed

lemma transform_clauses:
  assumes "MagicSetTransformer_transform toAddOrder toRemoveOrder program = Inr (changed, program')"
    and "\<forall>cs. mset (toAddOrder cs) = mset cs"
    and "\<forall>cs. mset (toRemoveOrder cs) = mset cs"
  shows "\<exists>refined rules.
        length refined = length (getClauses program) \<and>
        length rules = length (getClauses program) \<and>
        mset (getClauses program') = mset refined + mset (concat rules) \<and>
        (\<forall>i < length (getClauses program).
           spec_magicOutput (getClauses program ! i) (refined ! i) (rules ! i))"
proof -
  let ?st0 = "\<lparr>magicPredicatesSeen = {}, msProgram = program,
               clausesToRemove = [], clausesToAdd = []\<rparr>"
  from assms(1) obtain st where
    loop: "magicClauseLoop (getClauses program) ?st0 = Inr st"
    and res: "program' = fold removeClause (toRemoveOrder (clausesToRemove st))
                           (fold addClause (toAddOrder (clausesToAdd st)) (msProgram st))"
    by (cases "magicClauseLoop (getClauses program) ?st0")
       (auto simp: MagicSetTransformer_transform_def)
  from magicClauseLoop_result [OF loop] obtain refined rules where
    o: "clausesToRemove st = getClauses program"
       "getClauses (msProgram st) = getClauses program"
       "length refined = length (getClauses program)"
       "length rules = length (getClauses program)"
       "mset (clausesToAdd st) = mset refined + mset (concat rules)"
       "\<forall>i < length (getClauses program).
           spec_magicOutput (getClauses program ! i) (refined ! i) (rules ! i)" by auto
  from assms(3) have "mset (toRemoveOrder (getClauses program)) = mset (getClauses program)" ..
  then have "getClauses program' = toAddOrder (clausesToAdd st)"
    unfolding res getClauses_fold_removeClause getClauses_fold_addClause o(1,2)
    by (rule fold_remove1_rearranged)
  moreover from assms(2) have "mset (toAddOrder (clausesToAdd st)) = mset (clausesToAdd st)" ..
  ultimately have "mset (getClauses program') = mset refined + mset (concat rules)"
    using o(5) by simp
  with o(3,4,6) show ?thesis by blast
qed

lemma refined_not_original:
  assumes out: "spec_magicOutput clause refined rules"
    and c: "spec_adornedWith (getQualifiedName (getHead c)) \<alpha>"
    and body: "getBodyLiterals c = [] \<or>
               hd (getBodyLiterals c) \<noteq> Atom (spec_magicAtom \<alpha> (getHead c))"
  shows "refined \<noteq> c"
proof
  assume eq: "refined = c"
  from out have cases: "spec_unadorned (getQualifiedName (getHead clause)) \<or>
       (\<exists>\<beta>. spec_adornedWith (getQualifiedName (getHead clause)) \<beta>)"
    by (simp add: spec_magicOutput_def)
  then show False
  proof
    assume un: "spec_unadorned (getQualifiedName (getHead clause))"
    with out have "refined = clause" by (simp add: spec_magicOutput_def)
    with eq un c show False using spec_adornedWith_not_unadorned by blast
  next
    assume "\<exists>\<beta>. spec_adornedWith (getQualifiedName (getHead clause)) \<beta>"
    then obtain \<beta> where b: "spec_adornedWith (getQualifiedName (getHead clause)) \<beta>" ..
    with out have r: "refined = spec_refinedClause \<beta> clause" by (simp add: spec_magicOutput_def)
    from r eq have h: "getHead c = getHead clause"
      and bd: "getBodyLiterals c = Atom (spec_magicAtom \<beta> (getHead clause)) # getBodyLiterals clause"
      by (auto simp: spec_refinedClause_def)
    from b h have "spec_adornedWith (getQualifiedName (getHead c)) \<beta>" by simp
    from spec_adornedWith_unique [OF this c] have "\<beta> = \<alpha>" .
    with bd h body show False by simp
  qed
qed

lemma rule_not_original:
  assumes out: "spec_magicOutput clause refined rules"
    and "hd (getQualifiedName (getHead c)) \<noteq> ''@magic''"
  shows "c \<notin> set rules"
proof
  assume "c \<in> set rules"
  then have "getQualifiedName (getHead c) \<in> set (map (\<lambda>r. getQualifiedName (getHead r)) rules)"
    by simp
  also from out have "map (\<lambda>r. getQualifiedName (getHead r)) rules =
        map (\<lambda>a. ''@magic'' # getQualifiedName a)
          (filter (\<lambda>a. spec_marked (getQualifiedName a)) (bodyAtoms (getBodyLiterals clause)))"
    by (simp add: spec_magicOutput_def)
  finally have "hd (getQualifiedName (getHead c)) = ''@magic''" by auto
  with assms(2) show False by simp
qed

text \<open>
  C1. When the Magic pass succeeds, whatever the order in which the two sets of clauses
  are iterated, the clauses of the resulting program are, as a multiset, the outputs of
  the clauses of the input: for each clause its refined clause and its magic rules, and
  nothing else. A clause whose head is unadorned is its own refined clause and so is in
  the result unchanged. For a clause whose head carries the adornment \<open>\<alpha>\<close> the result
  holds the clause with the same head and with the magic atom, whose arguments are the
  head arguments at the positions \<open>i\<close> with \<open>\<alpha>[i] = b\<close>, in front of the original body
  literals in their order; the original clause itself is no longer in the result,
  unless it is a magic rule or already has its magic atom in front.
\<close>

theorem magic_refines_adorned_clauses:
  assumes "MagicSetTransformer_transform toAddOrder toRemoveOrder program = Inr (changed, program')"
    and "\<forall>cs. mset (toAddOrder cs) = mset cs"
    and "\<forall>cs. mset (toRemoveOrder cs) = mset cs"
  shows "(\<exists>refined rules.
            length refined = length (getClauses program) \<and>
            length rules = length (getClauses program) \<and>
            mset (getClauses program') = mset refined + mset (concat rules) \<and>
            (\<forall>i < length (getClauses program).
               spec_magicOutput (getClauses program ! i) (refined ! i) (rules ! i))) \<and>
         (\<forall>clause \<in> set (getClauses program).
            (spec_unadorned (getQualifiedName (getHead clause)) \<longrightarrow>
               clause \<in> set (getClauses program')) \<and>
            (\<forall>\<alpha>. spec_adornedWith (getQualifiedName (getHead clause)) \<alpha> \<longrightarrow>
               \<lparr>getHead = getHead clause,
                getBodyLiterals =
                  Atom (AstAtom (''@magic'' # getQualifiedName (getHead clause))
                          (map (\<lambda>i. getArguments (getHead clause) ! i)
                             (filter (\<lambda>i. i < length \<alpha> \<and> \<alpha> ! i = CHR ''b'')
                                [0..<length (getArguments (getHead clause))])))
                  # getBodyLiterals clause,
                hasExecutionPlan = False\<rparr> \<in> set (getClauses program') \<and>
               (hd (getQualifiedName (getHead clause)) \<noteq> ''@magic'' \<and>
                (getBodyLiterals clause = [] \<or>
                 hd (getBodyLiterals clause) \<noteq> Atom (spec_magicAtom \<alpha> (getHead clause))) \<longrightarrow>
                clause \<notin> set (getClauses program'))))"
proof -
  from transform_clauses [OF assms] obtain refined rules where
    o: "length refined = length (getClauses program)"
       "length rules = length (getClauses program)"
       "mset (getClauses program') = mset refined + mset (concat rules)"
       "\<forall>i < length (getClauses program).
           spec_magicOutput (getClauses program ! i) (refined ! i) (rules ! i)" by blast
  from o(3) have set: "set (getClauses program') = set refined \<union> set (concat rules)"
    by (metis set_mset_mset set_mset_union)
  have mem: "\<exists>r \<in> set (getClauses program'). \<exists>rs. spec_magicOutput clause r rs"
    if "clause \<in> set (getClauses program)" for clause
  proof -
    from that obtain i where i: "i < length (getClauses program)" "getClauses program ! i = clause"
      by (auto simp: in_set_conv_nth)
    with o(4) have "spec_magicOutput clause (refined ! i) (rules ! i)" by auto
    moreover from i o(1) have "refined ! i \<in> set refined" by simp
    ultimately show ?thesis using set by blast
  qed
  have gone: "c \<notin> set (getClauses program')"
    if c: "spec_adornedWith (getQualifiedName (getHead c)) \<alpha>"
      and h: "hd (getQualifiedName (getHead c)) \<noteq> ''@magic''"
      and b: "getBodyLiterals c = [] \<or>
              hd (getBodyLiterals c) \<noteq> Atom (spec_magicAtom \<alpha> (getHead c))" for c \<alpha>
  proof
    assume "c \<in> set (getClauses program')"
    with set have "c \<in> set refined \<or> c \<in> set (concat rules)" by simp
    then show False
    proof
      assume "c \<in> set refined"
      then obtain i where i: "i < length refined" "refined ! i = c"
        by (auto simp: in_set_conv_nth)
      from i(1) o(1,4) have "spec_magicOutput (getClauses program ! i) (refined ! i) (rules ! i)"
        by simp
      from refined_not_original [OF this c b] i(2) show False by simp
    next
      assume "c \<in> set (concat rules)"
      then obtain rs where "rs \<in> set rules" "c \<in> set rs" by auto
      then obtain i where i: "i < length rules" "c \<in> set (rules ! i)"
        by (auto simp: in_set_conv_nth)
      from i(1) o(2,4) have "spec_magicOutput (getClauses program ! i) (refined ! i) (rules ! i)"
        by simp
      from rule_not_original [OF this h] i(2) show False by simp
    qed
  qed
  have each: "(spec_unadorned (getQualifiedName (getHead clause)) \<longrightarrow>
               clause \<in> set (getClauses program')) \<and>
            (\<forall>\<alpha>. spec_adornedWith (getQualifiedName (getHead clause)) \<alpha> \<longrightarrow>
               \<lparr>getHead = getHead clause,
                getBodyLiterals =
                  Atom (AstAtom (''@magic'' # getQualifiedName (getHead clause))
                          (map (\<lambda>i. getArguments (getHead clause) ! i)
                             (filter (\<lambda>i. i < length \<alpha> \<and> \<alpha> ! i = CHR ''b'')
                                [0..<length (getArguments (getHead clause))])))
                  # getBodyLiterals clause,
                hasExecutionPlan = False\<rparr> \<in> set (getClauses program') \<and>
               (hd (getQualifiedName (getHead clause)) \<noteq> ''@magic'' \<and>
                (getBodyLiterals clause = [] \<or>
                 hd (getBodyLiterals clause) \<noteq> Atom (spec_magicAtom \<alpha> (getHead clause))) \<longrightarrow>
                clause \<notin> set (getClauses program')))"
    if "clause \<in> set (getClauses program)" for clause
  proof -
    from mem [OF that] obtain r rs where
      r: "r \<in> set (getClauses program')" "spec_magicOutput clause r rs" by blast
    from r have 1: "spec_unadorned (getQualifiedName (getHead clause)) \<longrightarrow>
               clause \<in> set (getClauses program')" by (auto simp: spec_magicOutput_def)
    from r have 2: "spec_refinedClause \<alpha> clause \<in> set (getClauses program')"
      if "spec_adornedWith (getQualifiedName (getHead clause)) \<alpha>" for \<alpha>
      using that by (auto simp: spec_magicOutput_def)
    show ?thesis
      using 1 2 gone
      by (simp add: spec_refinedClause_def spec_magicAtom_def spec_atBoundPositions_def)
  qed
  from o each show ?thesis by blast
qed


lemma example_magic_run_rev:
  "MagicSetTransformer_transform rev rev example_adorned =
     Inr (True, example_magic\<lparr>getClauses := rev (getClauses example_magic)\<rparr>)"
  by code_simp

theorem magic_refines_adorned_clauses_witness:
  "MagicSetTransformer_transform rev rev example_adorned =
     Inr (True, example_magic\<lparr>getClauses := rev (getClauses example_magic)\<rparr>) \<and>
   example_clause (AstAtom [''Q''] [AstVariable ''x''])
     [Atom (AstAtom [''R'', ''{bf}''] [AstVariable ''x'', AstVariable ''y''])]
     \<in> set (getClauses example_magic) \<and>
   example_clause (AstAtom [''R'', ''{bf}''] [AstVariable ''x'', AstVariable ''y''])
     [Atom (AstAtom [''@magic'', ''R'', ''{bf}''] [AstVariable ''x'']),
      Atom (AstAtom [''E''] [AstVariable ''x'', AstVariable ''z'']),
      Atom (AstAtom [''S'', ''{b}''] [AstVariable ''z'']),
      AstBinaryConstraint EQ (AstVariable ''y'') (AstVariable ''z'')]
     \<in> set (getClauses example_magic) \<and>
   example_clause (AstAtom [''R'', ''{bf}''] [AstVariable ''x'', AstVariable ''y''])
     [Atom (AstAtom [''E''] [AstVariable ''x'', AstVariable ''z'']),
      Atom (AstAtom [''S'', ''{b}''] [AstVariable ''z'']),
      AstBinaryConstraint EQ (AstVariable ''y'') (AstVariable ''z'')]
     \<notin> set (getClauses example_magic)"
proof -
  let ?q = "example_clause (AstAtom [''Q''] [AstVariable ''x''])
     [Atom (AstAtom [''R'', ''{bf}''] [AstVariable ''x'', AstVariable ''y''])]"
  let ?r = "example_clause (AstAtom [''R'', ''{bf}''] [AstVariable ''x'', AstVariable ''y''])
           [Atom (AstAtom [''E''] [AstVariable ''x'', AstVariable ''z'']),
            Atom (AstAtom [''S'', ''{b}''] [AstVariable ''z'']),
            AstBinaryConstraint EQ (AstVariable ''y'') (AstVariable ''z'')]"
  have perm: "\<forall>cs::AstClause list. mset (rev cs) = mset cs" by simp
  note inst = magic_refines_adorned_clauses [OF example_magic_run_rev perm perm,
      THEN conjunct2, rule_format]
  have q: "?q \<in> set (getClauses example_adorned)"
    and r: "?r \<in> set (getClauses example_adorned)"
    by (simp_all add: example_adorned_def)
  have "spec_unadorned (getQualifiedName (getHead ?q))"
    by (simp add: example_clause_def spec_unadorned_def)
  with inst [OF q] have 1: "?q \<in> set (getClauses example_magic)" by simp
  have ad: "spec_adornedWith (getQualifiedName (getHead ?r)) ''bf''"
    by (simp add: example_clause_def spec_adornedWith_def)
  from inst [OF r, THEN conjunct2, rule_format, OF ad] have 2:
    "\<lparr>getHead = getHead ?r,
      getBodyLiterals =
        Atom (AstAtom (''@magic'' # getQualifiedName (getHead ?r))
                (map (\<lambda>i. getArguments (getHead ?r) ! i)
                   (filter (\<lambda>i. i < length ''bf'' \<and> ''bf'' ! i = CHR ''b'')
                      [0..<length (getArguments (getHead ?r))])))
        # getBodyLiterals ?r,
      hasExecutionPlan = False\<rparr> \<in> set (getClauses example_magic)"
    and 3: "hd (getQualifiedName (getHead ?r)) \<noteq> ''@magic'' \<and>
           (getBodyLiterals ?r = [] \<or>
            hd (getBodyLiterals ?r) \<noteq> Atom (spec_magicAtom ''bf'' (getHead ?r))) \<longrightarrow>
           ?r \<notin> set (getClauses example_magic)"
    by simp_all
  from 3 have 4: "?r \<notin> set (getClauses example_magic)"
    by (simp add: example_clause_def spec_magicAtom_def)
  from 2 have 5: "example_clause (AstAtom [''R'', ''{bf}''] [AstVariable ''x'', AstVariable ''y''])
     [Atom (AstAtom [''@magic'', ''R'', ''{bf}''] [AstVariable ''x'']),
      Atom (AstAtom [''E''] [AstVariable ''x'', AstVariable ''z'']),
      Atom (AstAtom [''S'', ''{b}''] [AstVariable ''z'']),
      AstBinaryConstraint EQ (AstVariable ''y'') (AstVariable ''z'')]
     \<in> set (getClauses example_magic)"
    by (simp add: example_clause_def upt_conv_Cons)
  from 1 4 5 example_magic_run_rev show ?thesis by blast
qed

subsection \<open>Magic pass: declaration of the magic relations\<close>





lemma magicInvariant_clausesToAdd [simp]:
  "magicInvariant p0 (st\<lparr>clausesToAdd := x\<rparr>) = magicInvariant p0 st"
  by (simp add: magicInvariant_def)

lemma magicInvariant_clausesToRemove [simp]:
  "magicInvariant p0 (st\<lparr>clausesToRemove := x\<rparr>) = magicInvariant p0 st"
  by (simp add: magicInvariant_def)









subsection \<open>Adorn pass: which original clauses are removed\<close>







lemma adornInvariant_relationsAdded [simp]:
  "adornInvariant cfg program (st\<lparr>relationsAdded := x\<rparr>) = adornInvariant cfg program st"
  by (simp add: adornInvariant_def)







lemma getQualifiedName_setQualifiedName [simp]:
  "getQualifiedName (setQualifiedName n a) = n"
  by (cases a) simp

lemma getArguments_setQualifiedName [simp]:
  "getArguments (setQualifiedName n a) = getArguments a"
  by (cases a) simp




lemma getAdornmentID_empty [simp]: "getAdornmentID (n, []) = n"
  by (simp add: getAdornmentID_def)





lemma adornProcessed_toDo [simp]:
  "adornProcessed program (st\<lparr>headAdornmentsToDo := x\<rparr>) p = adornProcessed program st p"
  by (simp add: adornProcessed_def)








end
